theory Spec2Isabelle
  imports Main "HOL-Library.AList"
begin

section \<open>Data model of the tile streaming pipeline (Scene/CentralBody.js)\<close>

text \<open>
  The pipeline mutates shared JavaScript objects: a tile is referenced from its parent, from
  the stage queues and from the texture cache at the same time. Tiles therefore live in an
  explicit store, and every other structure holds tile references. A field that may be
  \<^verbatim>\<open>undefined\<close> is an \<open>option\<close>. Times (\<^verbatim>\<open>JulianDate\<close>) are seconds on an integer clock;
  every \<^verbatim>\<open>new JulianDate()\<close> of the source is a clock reading: an argument of the cache's
  functions, and for the central body the next reading of the clock it is run with.
\<close>

text \<open>Modelled from the spec: Scene/TileState.js is missing. These are the states of spec
  4.1, each of which CentralBody.js names; they are objects, so only an undefined state is
  falsy.\<close>

datatype TileState =
    READY | IMAGE_LOADING | IMAGE_LOADED | IMAGE_FAILED | IMAGE_INVALID
  | REPROJECTING | REPROJECTED | TEXTURE_LOADING | TEXTURE_LOADED

datatype error = TypeError

datatype projection = WGS84 | MERCATOR

type_synonym tile_ref = nat
type_synonym julian = int

record image_data =
  img_width :: nat
  img_height :: nat

record texture2d =
  tex_width :: nat
  tex_height :: nat

text \<open>Modelled from the spec: Scene/Tile.js is missing. The record has the fields that
  CentralBody.js reads and writes: \<^verbatim>\<open>x\<close>, \<^verbatim>\<open>y\<close>, \<^verbatim>\<open>zoom\<close>, \<^verbatim>\<open>parent\<close>, \<^verbatim>\<open>children\<close>, \<^verbatim>\<open>state\<close>,
  \<^verbatim>\<open>image\<close>, \<^verbatim>\<open>texture\<close>, \<^verbatim>\<open>projection\<close>, \<^verbatim>\<open>_extentVA\<close> (is a vertex array attached),
  \<^verbatim>\<open>_failCount\<close> and \<^verbatim>\<open>_lastHit\<close>.\<close>

record tile =
  tile_x :: nat
  tile_y :: nat
  zoom :: nat
  parent :: "tile_ref option"
  children :: "tile_ref list"
  state :: "TileState option"
  tile_image :: "image_data option"
  texture :: "texture2d option"
  projection :: "projection option"
  extentVA :: bool
  failCount :: "nat option"
  lastHit :: "julian option"

type_synonym store = "tile_ref \<Rightarrow> tile"

text \<open>An outcome keeps the state reached: a JavaScript exception unwinds the call but leaves
  every mutation made so far in place. \<open>Inl (e, s)\<close> is "threw \<open>e\<close> in state \<open>s\<close>".\<close>

type_synonym ('a, 's) outcome = "(error \<times> 's) + ('a \<times> 's)"

subsection \<open>TileTextureCachePolicy\<close>

record property =
  prop_key :: tile_ref
  prop_value :: texture2d

text \<open>The cache's backing object: property names in insertion order (the order of
  \<^verbatim>\<open>Object.keys\<close> for non-index names). \<^verbatim>\<open>object[name] = p\<close> is \<open>AList.update\<close>,
  \<^verbatim>\<open>delete object[name]\<close> is \<open>AList.delete\<close>, \<^verbatim>\<open>object[name]\<close> is \<open>map_of\<close>.\<close>

type_synonym cache_object = "(string \<times> property) list"

record policy =
  limit :: nat
  count :: nat
  fetchFunc :: "tile \<Rightarrow> error + texture2d"
  removeFunc :: "(tile_ref \<Rightarrow> store \<Rightarrow> (error \<times> store) + store) option"

text \<open>The constructor: \<^verbatim>\<open>this._limit = desc.limit || 128\<close>, so a limit of 0 becomes 128.\<close>

definition TileTextureCachePolicy ::
  "nat \<Rightarrow> (tile \<Rightarrow> error + texture2d) \<Rightarrow> (tile_ref \<Rightarrow> store \<Rightarrow> (error \<times> store) + store) option \<Rightarrow> policy" where
  "TileTextureCachePolicy lim ff rf =
     \<lparr>limit = (if lim = 0 then 128 else lim), count = 0, fetchFunc = ff, removeFunc = rf\<rparr>"

text \<open>The loop of \<^verbatim>\<open>hit\<close>: stamp \<open>current\<close>, follow its parent link, until the link is
  undefined. Nothing in the policy bounds the walk, so not returning is the value \<open>None\<close>.\<close>

partial_function (option) hit_loop :: "julian \<Rightarrow> tile_ref option \<Rightarrow> store \<Rightarrow> store option" where
  "hit_loop time current s =
     (case current of
        None \<Rightarrow> Some s
      | Some c \<Rightarrow> hit_loop time (parent (s c)) (s(c := (s c)\<lparr>lastHit := Some time\<rparr>)))"

definition hit :: "julian \<Rightarrow> property \<Rightarrow> store \<Rightarrow> (texture2d \<times> store) option" where
  "hit time object s =
     (case hit_loop time (Some (prop_key object)) s of
        None \<Rightarrow> None
      | Some s' \<Rightarrow> Some (prop_value object, s'))"

text \<open>The eviction scan of \<^verbatim>\<open>miss\<close>, over \<^verbatim>\<open>Object.keys(object)\<close>: it threads the oldest
  time seen and the name holding it, starting from the clock reading and the empty name.
  \<^verbatim>\<open>element.key._lastHit.lessThan\<close> on a tile never stamped is a TypeError.\<close>

fun lru_scan :: "store \<Rightarrow> cache_object \<Rightarrow> string list \<Rightarrow> julian \<Rightarrow> string \<Rightarrow> error + (julian \<times> string)" where
  "lru_scan s object [] lruTime index = Inr (lruTime, index)"
| "lru_scan s object (k # keys) lruTime index =
     (case map_of object k of
        None \<Rightarrow> Inl TypeError
      | Some element \<Rightarrow>
          (case lastHit (s (prop_key element)) of
             None \<Rightarrow> Inl TypeError
           | Some lh \<Rightarrow>
               if lh < lruTime \<and> zoom (s (prop_key element)) > 2
               then lru_scan s object keys lh k
               else lru_scan s object keys lruTime index))"

type_synonym cache_state = "policy \<times> cache_object \<times> store"

text \<open>\<^verbatim>\<open>miss(name, key, object)\<close>. \<open>lruTime\<close> is the clock reading of \<^verbatim>\<open>miss\<close> itself,
  \<open>time\<close> the later one taken inside \<^verbatim>\<open>hit\<close>.\<close>

definition miss ::
  "julian \<Rightarrow> julian \<Rightarrow> string \<Rightarrow> tile_ref \<Rightarrow> policy \<Rightarrow> cache_object \<Rightarrow> store
     \<Rightarrow> (texture2d, cache_state) outcome option" where
  "miss lruTime time name key pol object s =
     (case fetchFunc pol (s key) of
        Inl e \<Rightarrow> Some (Inl (e, (pol, object, s)))
      | Inr v \<Rightarrow>
          (let prop = \<lparr>prop_key = key, prop_value = v\<rparr> in
           case hit time prop s of
             None \<Rightarrow> None
           | Some (_, s1) \<Rightarrow>
               Some
                (if count pol < limit pol
                 then Inr (v, (pol\<lparr>count := count pol + 1\<rparr>, AList.update name prop object, s1))
                 else
                   (case lru_scan s1 object (map fst object) lruTime [] of
                      Inl e \<Rightarrow> Inl (e, (pol, object, s1))
                    | Inr (_, index) \<Rightarrow>
                        (case removeFunc pol of
                           None \<Rightarrow>
                             Inr (v, (pol, AList.update name prop (AList.delete index object), s1))
                         | Some rf \<Rightarrow>
                             (case map_of object index of
                                None \<Rightarrow> Inl (TypeError, (pol, object, s1))
                              | Some element \<Rightarrow>
                                  (case rf (prop_key element) s1 of
                                     Inl (e, s2) \<Rightarrow> Inl (e, (pol, object, s2))
                                   | Inr s2 \<Rightarrow>
                                       Inr (v, (pol, AList.update name prop (AList.delete index object), s2)))))))))"


subsection \<open>Collaborators that are not part of the sources\<close>

text \<open>Modelled from the spec: Core/Queue.js is missing. The spec calls the stage queues FIFO
  queues of tile references: \<open>enqueue\<close> appends, \<open>dequeue\<close> takes the oldest entry (and returns
  \<^verbatim>\<open>undefined\<close> on an empty queue), \<open>contains\<close> tests membership.\<close>

definition enqueue :: "tile_ref list \<Rightarrow> tile_ref \<Rightarrow> tile_ref list" where
  "enqueue q t = q @ [t]"

definition dequeue :: "tile_ref list \<Rightarrow> tile_ref option \<times> tile_ref list" where
  "dequeue q = (case q of [] \<Rightarrow> (None, []) | t # q' \<Rightarrow> (Some t, q'))"

definition contains :: "tile_ref list \<Rightarrow> tile_ref \<Rightarrow> bool" where
  "contains q t = (t \<in> set q)"

text \<open>Modelled from the spec: Core/Cache.js is missing. Spec 4.3: on acquire, if an entry
  already exists for the key, touch it and return its texture; otherwise run the policy's
  miss handler. The entry's name is the tile's key string. \<open>t1\<close> and \<open>t2\<close> are the next two
  clock readings; a hit consumes the first only.\<close>

definition Cache_find ::
  "julian \<Rightarrow> julian \<Rightarrow> (tile \<Rightarrow> string) \<Rightarrow> tile_ref \<Rightarrow> cache_state
     \<Rightarrow> (texture2d, cache_state) outcome option" where
  "Cache_find t1 t2 gk key cs =
     (case cs of (pol, object, s) \<Rightarrow>
        (case map_of object (gk (s key)) of
           Some element \<Rightarrow>
             (case hit t1 element s of
                None \<Rightarrow> None
              | Some (v, s') \<Rightarrow> Some (Inr (v, (pol, object, s'))))
         | None \<Rightarrow> miss t1 t2 (gk (s key)) key pol object s))"

text \<open>The imagery provider, as far as the pipeline reads it. \<open>loadTileImage\<close> is the handle
  that the asynchronous request returns at once; its callbacks are the operations
  \<open>onload\<close>, \<open>onerror\<close> and \<open>oninvalid\<close> below, run between frames.\<close>

record provider =
  zoomMin :: nat
  zoomMax :: nat
  prov_projection :: projection
  tileWidth :: "nat option"
  tileHeight :: "nat option"
  loadTileImage :: "tile \<Rightarrow> image_data option"

text \<open>What a frame takes from outside the pipeline: the system clock (reading number \<open>n\<close>),
  the visibility test \<^verbatim>\<open>_cull(tile, state)\<close> and the refinement test of this frame (camera
  geometry, constant during the frame), the reprojection routine and \<^verbatim>\<open>Tile.getKey\<close>.\<close>

record env =
  clock :: "nat \<Rightarrow> julian"
  cull :: "tile_ref \<Rightarrow> bool"
  refine :: "tile_ref \<Rightarrow> bool"
  toWgs84 :: "projection \<Rightarrow> tile \<Rightarrow> image_data option"
  getKey :: "tile \<Rightarrow> string"

subsection \<open>CentralBody\<close>

record texture_pool =
  pool_width :: nat
  pool_height :: nat

record central_body =
  rootTile :: tile_ref
  renderQueue :: "tile_ref list"
  imageQueue :: "tile_ref list"
  textureQueue :: "tile_ref list"
  reprojectQueue :: "tile_ref list"
  texturePool :: "texture_pool option"
  textureCache :: "(policy \<times> cache_object) option"
  textureCacheLimit :: nat
  textureThrottleLimit :: nat
  reprojectThrottleLimit :: nat
  imageThrottleLimit :: nat
  prefetchLimit :: nat
  tileFailCount :: nat
  lastFailedTime :: "julian option"
  perTileMaxFailCount :: nat
  maxTileFailCount :: nat
  failedTileRetryTime :: int
  private_maxTileFailCount :: "nat option"
  dayTileProvider :: "provider option"
  tiles :: store
  ticks :: nat

text \<open>The constructor. It assigns the public \<^verbatim>\<open>perTileMaxFailCount\<close> and \<^verbatim>\<open>maxTileFailCount\<close>;
  the private \<^verbatim>\<open>_maxTileFailCount\<close> that \<^verbatim>\<open>_processTile\<close> reads is assigned nowhere in the
  file, so it is \<^verbatim>\<open>undefined\<close>.\<close>

definition CentralBody :: "store \<Rightarrow> tile_ref \<Rightarrow> central_body" where
  "CentralBody s root =
     \<lparr>rootTile = root, renderQueue = [], imageQueue = [], textureQueue = [], reprojectQueue = [],
      texturePool = None, textureCache = None, textureCacheLimit = 512,
      textureThrottleLimit = 10, reprojectThrottleLimit = 10, imageThrottleLimit = 15,
      prefetchLimit = 1, tileFailCount = 0, lastFailedTime = None,
      perTileMaxFailCount = 3, maxTileFailCount = 30, failedTileRetryTime = 30,
      private_maxTileFailCount = None, dayTileProvider = None, tiles = s, ticks = 0\<rparr>"

type_synonym cb_outcome = "(error \<times> central_body) + central_body"

definition now :: "env \<Rightarrow> central_body \<Rightarrow> julian" where
  "now e cb = clock e (ticks cb)"

definition tick :: "central_body \<Rightarrow> central_body" where
  "tick cb = cb\<lparr>ticks := ticks cb + 1\<rparr>"

definition upd_tile :: "tile_ref \<Rightarrow> (tile \<Rightarrow> tile) \<Rightarrow> central_body \<Rightarrow> central_body" where
  "upd_tile t f cb = cb\<lparr>tiles := (tiles cb)(t := f (tiles cb t))\<rparr>"

text \<open>The two callbacks that \<^verbatim>\<open>_createTextureCache\<close> hands to the policy. Both branches of
  \<open>fetch\<close> yield a texture of the image's size; the pool's free list is not modelled.
  In \<open>remove\<close>, \<^verbatim>\<open>tile.texture.getWidth()\<close> and \<^verbatim>\<open>pool.getWidth()\<close> throw on \<^verbatim>\<open>undefined\<close>;
  \<^verbatim>\<open>destroy()\<close> returns \<^verbatim>\<open>undefined\<close>, so either branch leaves the texture unset.\<close>

definition fetch_func :: "texture_pool option \<Rightarrow> tile \<Rightarrow> error + texture2d" where
  "fetch_func pool ti =
     (case tile_image ti of
        None \<Rightarrow> Inl TypeError
      | Some img \<Rightarrow> Inr \<lparr>tex_width = img_width img, tex_height = img_height img\<rparr>)"

definition remove_func :: "texture_pool option \<Rightarrow> tile_ref \<Rightarrow> store \<Rightarrow> (error \<times> store) + store" where
  "remove_func pool t s =
     (case texture (s t) of
        None \<Rightarrow> Inl (TypeError, s)
      | Some tex \<Rightarrow>
          (case pool of
             None \<Rightarrow> Inl (TypeError, s)
           | Some p \<Rightarrow>
               Inr (s(t := (s t)\<lparr>texture := None, extentVA := False,
                                  projection := None, state := Some READY\<rparr>))))"

definition createTextureCache :: "central_body \<Rightarrow> central_body" where
  "createTextureCache cb =
     (let pool =
        (case dayTileProvider cb of
           None \<Rightarrow> None
         | Some p \<Rightarrow>
             (case (tileWidth p, tileHeight p) of
                (Some w, Some h) \<Rightarrow> Some \<lparr>pool_width = w, pool_height = h\<rparr>
              | _ \<Rightarrow> None))
      in cb\<lparr>texturePool := pool,
            textureCache :=
              Some (TileTextureCachePolicy (textureCacheLimit cb) (fetch_func pool)
                      (Some (remove_func pool)), [])\<rparr>)"

text \<open>The callbacks of \<^verbatim>\<open>_fetchImage\<close>.\<close>

definition onload :: "tile_ref \<Rightarrow> central_body \<Rightarrow> central_body" where
  "onload t cb = upd_tile t (\<lambda>ti. ti\<lparr>state := Some IMAGE_LOADED\<rparr>) cb"

definition onerror :: "env \<Rightarrow> tile_ref \<Rightarrow> central_body \<Rightarrow> central_body" where
  "onerror e t cb =
     tick (upd_tile t
             (\<lambda>ti. ti\<lparr>failCount := Some (case failCount ti of None \<Rightarrow> 1
                                            | Some n \<Rightarrow> if n = 0 then 1 else n + 1),
                       state := Some IMAGE_FAILED\<rparr>)
             (cb\<lparr>tileFailCount := tileFailCount cb + 1, lastFailedTime := Some (now e cb)\<rparr>))"

definition oninvalid :: "tile_ref \<Rightarrow> central_body \<Rightarrow> central_body" where
  "oninvalid t cb = upd_tile t (\<lambda>ti. ti\<lparr>state := Some IMAGE_INVALID\<rparr>) cb"


subsection \<open>The three stage drains\<close>

text \<open>Each drain is a \<^verbatim>\<open>for\<close> loop that dequeues one tile per round; the loop body on the
  dequeued tile is the stage proper. \<^verbatim>\<open>_createBaseTile\<close> makes a 1x1 canvas.\<close>

definition createBaseTile :: image_data where
  "createBaseTile = \<lparr>img_width = 1, img_height = 1\<rparr>"

definition imageStage :: "env \<Rightarrow> tile_ref \<Rightarrow> central_body \<Rightarrow> cb_outcome" where
  "imageStage e t cb =
     (if cull e t then Inr (upd_tile t (\<lambda>ti. ti\<lparr>state := Some READY\<rparr>) cb)
      else
        (case dayTileProvider cb of
           None \<Rightarrow> Inl (TypeError, cb)
         | Some p \<Rightarrow>
             if zoomMin p \<noteq> 0 \<and> zoom (tiles cb t) = 0 \<and> tile_x (tiles cb t) = 0
                \<and> tile_y (tiles cb t) = 0
             then Inr (upd_tile t
                         (\<lambda>ti. ti\<lparr>tile_image := Some createBaseTile, projection := Some WGS84,
                                   state := Some IMAGE_LOADED\<rparr>) cb)
             else Inr (upd_tile t
                         (\<lambda>ti. ti\<lparr>tile_image := loadTileImage p ti,
                                   projection := (case projection ti of
                                                    None \<Rightarrow> Some (prov_projection p)
                                                  | Some pr \<Rightarrow> Some pr)\<rparr>) cb)))"

function throttleImages_loop :: "env \<Rightarrow> nat \<Rightarrow> nat \<Rightarrow> central_body \<Rightarrow> cb_outcome" where
  "throttleImages_loop e i len cb =
     (if i < len \<and> i < imageThrottleLimit cb then
        (case dequeue (imageQueue cb) of
           (None, q) \<Rightarrow> Inl (TypeError, cb\<lparr>imageQueue := q\<rparr>)
         | (Some t, q) \<Rightarrow>
             (case imageStage e t (cb\<lparr>imageQueue := q\<rparr>) of
                Inl x \<Rightarrow> Inl x
              | Inr cb' \<Rightarrow> throttleImages_loop e (i + 1) len cb'))
      else Inr cb)"
  by pat_completeness auto
termination
  by (relation "measure (\<lambda>(e, i, len, cb). len - i)") auto

definition throttleImages :: "env \<Rightarrow> central_body \<Rightarrow> cb_outcome" where
  "throttleImages e cb = throttleImages_loop e 0 (length (imageQueue cb)) cb"

definition reprojectStage :: "env \<Rightarrow> tile_ref \<Rightarrow> central_body \<Rightarrow> cb_outcome" where
  "reprojectStage e t cb =
     (if cull e t
      then Inr (upd_tile t (\<lambda>ti. ti\<lparr>tile_image := None, state := Some READY\<rparr>) cb)
      else
        (case projection (tiles cb t) of
           None \<Rightarrow> Inl (TypeError, cb)
         | Some pr \<Rightarrow>
             Inr (upd_tile t
                    (\<lambda>ti. ti\<lparr>tile_image := toWgs84 e pr ti, state := Some REPROJECTED,
                              projection := Some WGS84\<rparr>) cb)))"

function throttleReprojection_loop :: "env \<Rightarrow> nat \<Rightarrow> nat \<Rightarrow> central_body \<Rightarrow> cb_outcome" where
  "throttleReprojection_loop e i len cb =
     (if i < len \<and> i < reprojectThrottleLimit cb then
        (case dequeue (reprojectQueue cb) of
           (None, q) \<Rightarrow> Inl (TypeError, cb\<lparr>reprojectQueue := q\<rparr>)
         | (Some t, q) \<Rightarrow>
             (case reprojectStage e t (cb\<lparr>reprojectQueue := q\<rparr>) of
                Inl x \<Rightarrow> Inl x
              | Inr cb' \<Rightarrow> throttleReprojection_loop e (i + 1) len cb'))
      else Inr cb)"
  by pat_completeness auto
termination
  by (relation "measure (\<lambda>(e, i, len, cb). len - i)") auto

definition throttleReprojection :: "env \<Rightarrow> central_body \<Rightarrow> cb_outcome" where
  "throttleReprojection e cb = throttleReprojection_loop e 0 (length (reprojectQueue cb)) cb"

text \<open>The upload stage. \<^verbatim>\<open>_textureCache.find\<close> reads the clock once on a hit and twice on a
  miss (not at all when the fetch callback throws first); the walk inside \<^verbatim>\<open>hit\<close> may not
  return. Copying the pixels, the mipmaps and the sampler are GPU effects outside the model.\<close>

definition textureStage :: "env \<Rightarrow> tile_ref \<Rightarrow> central_body \<Rightarrow> cb_outcome option" where
  "textureStage e t cb =
     (if cull e t \<or> tile_image (tiles cb t) = None
      then Some (Inr (upd_tile t (\<lambda>ti. ti\<lparr>tile_image := None, state := Some READY\<rparr>) cb))
      else
        (case textureCache cb of
           None \<Rightarrow> Some (Inl (TypeError, cb))
         | Some (pol, object) \<Rightarrow>
             (let n = (if map_of object (getKey e (tiles cb t)) \<noteq> None then 1
                       else case fetchFunc pol (tiles cb t) of Inl er \<Rightarrow> 0 | Inr v \<Rightarrow> 2) in
              case Cache_find (clock e (ticks cb)) (clock e (ticks cb + 1)) (getKey e) t
                     (pol, object, tiles cb) of
                None \<Rightarrow> None
              | Some (Inl (er, (pol', object', s'))) \<Rightarrow>
                  Some (Inl (er, cb\<lparr>textureCache := Some (pol', object'), tiles := s',
                                      ticks := ticks cb + n\<rparr>))
              | Some (Inr (tex, (pol', object', s'))) \<Rightarrow>
                  Some (Inr (upd_tile t
                               (\<lambda>ti. ti\<lparr>texture := Some tex, state := Some TEXTURE_LOADED,
                                         tile_image := None\<rparr>)
                               (cb\<lparr>textureCache := Some (pol', object'), tiles := s',
                                    ticks := ticks cb + n\<rparr>))))))"

function throttleTextures_loop :: "env \<Rightarrow> nat \<Rightarrow> nat \<Rightarrow> central_body \<Rightarrow> cb_outcome option" where
  "throttleTextures_loop e i len cb =
     (if i < len \<and> i < textureThrottleLimit cb then
        (case dequeue (textureQueue cb) of
           (None, q) \<Rightarrow> Some (Inl (TypeError, cb\<lparr>textureQueue := q\<rparr>))
         | (Some t, q) \<Rightarrow>
             (case textureStage e t (cb\<lparr>textureQueue := q\<rparr>) of
                None \<Rightarrow> None
              | Some (Inl x) \<Rightarrow> Some (Inl x)
              | Some (Inr cb') \<Rightarrow> throttleTextures_loop e (i + 1) len cb'))
      else Some (Inr cb))"
  by pat_completeness auto
termination
  by (relation "measure (\<lambda>(e, i, len, cb). len - i)") auto

definition throttleTextures :: "env \<Rightarrow> central_body \<Rightarrow> cb_outcome option" where
  "throttleTextures e cb = throttleTextures_loop e 0 (length (textureQueue cb)) cb"

subsection \<open>\<^verbatim>\<open>_processTile\<close>\<close>

text \<open>A comparison with \<^verbatim>\<open>undefined\<close> on either side is false in JavaScript.\<close>

definition js_lt :: "nat option \<Rightarrow> nat option \<Rightarrow> bool" where
  "js_lt a b = (case (a, b) of (Some m, Some n) \<Rightarrow> m < n | _ \<Rightarrow> False)"

text \<open>Modelled from the spec: Core/JulianDate.js is missing. The cool-down is measured in
  seconds since the last failure: \<^verbatim>\<open>a.getSecondsDifference(b)\<close> is the time from \<open>a\<close> to \<open>b\<close>.\<close>

definition getSecondsDifference :: "julian \<Rightarrow> julian \<Rightarrow> int" where
  "getSecondsDifference a b = b - a"

definition maxTimePassed :: "env \<Rightarrow> central_body \<Rightarrow> bool" where
  "maxTimePassed e cb =
     (case lastFailedTime cb of
        None \<Rightarrow> False
      | Some lf \<Rightarrow> failedTileRetryTime cb \<le> getSecondsDifference lf (now e cb))"

definition processTile :: "env \<Rightarrow> tile_ref \<Rightarrow> central_body \<Rightarrow> central_body" where
  "processTile e t cb =
     (if contains (imageQueue cb) t \<or> contains (reprojectQueue cb) t \<or> contains (textureQueue cb) t
      then cb
      else
        (let ti = tiles cb t;
             maxFailed = js_lt (private_maxTileFailCount cb) (Some (tileFailCount cb));
             requestFailed = (state ti = Some IMAGE_FAILED
                              \<and> js_lt (failCount ti) (private_maxTileFailCount cb));
             timePassed = maxTimePassed e cb;
             retry = (timePassed \<or> (requestFailed \<and> \<not> maxFailed));
             cb0 = (case lastFailedTime cb of None \<Rightarrow> cb | Some lf \<Rightarrow> tick cb)
         in
           if state ti = None \<or> state ti = Some READY then
             upd_tile t (\<lambda>ti. ti\<lparr>state := Some IMAGE_LOADING\<rparr>)
               (cb0\<lparr>imageQueue := enqueue (imageQueue cb0) t\<rparr>)
           else if state ti = Some IMAGE_LOADED then
             upd_tile t (\<lambda>ti. ti\<lparr>state := Some REPROJECTING\<rparr>)
               (cb0\<lparr>reprojectQueue := enqueue (reprojectQueue cb0) t\<rparr>)
           else if state ti = Some REPROJECTED then
             upd_tile t (\<lambda>ti. ti\<lparr>state := Some TEXTURE_LOADING\<rparr>)
               (cb0\<lparr>textureQueue := enqueue (textureQueue cb0) t\<rparr>)
           else if retry then
             (let cb1 = (if timePassed
                         then upd_tile t (\<lambda>ti. ti\<lparr>failCount := Some 0\<rparr>) (cb0\<lparr>tileFailCount := 0\<rparr>)
                         else cb0)
              in upd_tile t (\<lambda>ti. ti\<lparr>state := Some IMAGE_LOADING\<rparr>)
                   (cb1\<lparr>imageQueue := enqueue (imageQueue cb1) t\<rparr>))
           else if state ti = Some IMAGE_INVALID \<and> tile_image ti \<noteq> None then
             upd_tile t (\<lambda>ti. ti\<lparr>tile_image := None\<rparr>) cb0
           else cb0))"

subsection \<open>The frame: drains, then the tree walk\<close>

text \<open>\<^verbatim>\<open>_enqueueTile\<close> touches the render queue and the tile's vertex array only.\<close>

definition enqueueTile :: "tile_ref \<Rightarrow> central_body \<Rightarrow> central_body" where
  "enqueueTile t cb =
     (if contains (renderQueue cb) t then cb
      else (upd_tile t (\<lambda>ti. ti\<lparr>extentVA := True\<rparr>) cb)
             \<lparr>renderQueue := enqueue (renderQueue cb) t\<rparr>)"

text \<open>The test \<^verbatim>\<open>state === TEXTURE_LOADED && texture && !texture.isDestroyed()\<close>. Whoever
  destroys a tile's texture (the remove callback, the teardown of the tree) unsets the field
  in the same step, so a texture that a tile holds is not a destroyed one.\<close>

definition loaded :: "tile \<Rightarrow> bool" where
  "loaded ti = (state ti = Some TEXTURE_LOADED \<and> texture ti \<noteq> None)"

text \<open>The inner \<^verbatim>\<open>for\<close> loop of \<^verbatim>\<open>update\<close> over a refined tile's children. The stack is a
  list whose head is the top. \<^verbatim>\<open>getChildren\<close> creates the four children on first use; a
  tile just created has no state, which is how an untouched tile of the store looks.\<close>

fun refine_children ::
  "env \<Rightarrow> tile_ref \<Rightarrow> tile_ref list \<Rightarrow> tile_ref list \<Rightarrow> central_body \<Rightarrow> tile_ref list \<times> central_body" where
  "refine_children e t [] stack cb = (stack, cb)"
| "refine_children e t (child # cs) stack cb =
     (if loaded (tiles cb child) then refine_children e t cs (child # stack) cb
      else refine_children e t cs stack (processTile e child (enqueueTile t cb)))"

partial_function (option) traverse :: "env \<Rightarrow> tile_ref list \<Rightarrow> central_body \<Rightarrow> cb_outcome option" where
  "traverse e stack cb =
     (case stack of
        [] \<Rightarrow> Some (Inr cb)
      | t # rest \<Rightarrow>
          if cull e t then traverse e rest cb
          else if dayTileProvider cb = None \<or> loaded (tiles cb t) then
            (case dayTileProvider cb of
               None \<Rightarrow> Some (Inl (TypeError, cb))
             | Some p \<Rightarrow>
                 if zoom (tiles cb t) + 1 > zoomMax p \<or> \<not> refine e t
                 then traverse e rest (enqueueTile t cb)
                 else traverse e (fst (refine_children e t (children (tiles cb t)) rest cb))
                                 (snd (refine_children e t (children (tiles cb t)) rest cb)))
          else traverse e rest (processTile e t cb))"

text \<open>The pipeline part of \<^verbatim>\<open>update\<close>: make the texture cache if there is none, run the three
  drains in the order of the source, then walk the tree. The logo, the shaders and the
  framebuffer of the same function do not touch the pipeline's state. The branch taken when
  the application has installed another provider (it clears the three queues, tears the tree
  and the cache down and prefetches through \<^verbatim>\<open>_processTile\<close>) is not part of the model: the
  provider of the central body is the one already in use.\<close>

definition update :: "env \<Rightarrow> central_body \<Rightarrow> cb_outcome option" where
  "update e cb =
     (let cb0 = (if textureCache cb = None then createTextureCache cb else cb) in
      case throttleImages e cb0 of
        Inl x \<Rightarrow> Some (Inl x)
      | Inr cb1 \<Rightarrow>
          (case throttleReprojection e cb1 of
             Inl x \<Rightarrow> Some (Inl x)
           | Inr cb2 \<Rightarrow>
               (case throttleTextures e cb2 of
                  None \<Rightarrow> None
                | Some (Inl x) \<Rightarrow> Some (Inl x)
                | Some (Inr cb3) \<Rightarrow> traverse e [rootTile cb3] cb3)))"

section \<open>Notions used to state the properties\<close>

text \<open>The parent chain of a tile, as the list of tiles from \<open>cur\<close> up to the root.\<close>

fun chain_ok :: "store \<Rightarrow> tile_ref option \<Rightarrow> tile_ref list \<Rightarrow> bool" where
  "chain_ok s cur [] = (cur = None)"
| "chain_ok s cur (c # cs) = (cur = Some c \<and> chain_ok s (parent (s c)) cs)"

definition touch :: "julian \<Rightarrow> tile_ref list \<Rightarrow> store \<Rightarrow> store" where
  "touch time cs s = (\<lambda>c. if c \<in> set cs then (s c)\<lparr>lastHit := Some time\<rparr> else s c)"

text \<open>An entry qualifies as eviction victim at scan time \<open>lruTime\<close> when the test of the scan
  loop holds for it.\<close>

definition qualifies :: "store \<Rightarrow> julian \<Rightarrow> property \<Rightarrow> bool" where
  "qualifies s lruTime el =
     (case lastHit (s (prop_key el)) of
        None \<Rightarrow> False
      | Some lh \<Rightarrow> lh < lruTime \<and> zoom (s (prop_key el)) > 2)"

text \<open>A sequence of acquire operations on the cache, each with its two clock readings. A
  caller that catches an exception goes on with the state the exception left.\<close>

fun acquire_all ::
  "(tile \<Rightarrow> string) \<Rightarrow> (julian \<times> julian \<times> tile_ref) list \<Rightarrow> cache_state \<Rightarrow> cache_state option" where
  "acquire_all gk [] cs = Some cs"
| "acquire_all gk ((t1, t2, key) # reqs) cs =
     (case Cache_find t1 t2 gk key cs of
        None \<Rightarrow> None
      | Some (Inl (e, cs')) \<Rightarrow> acquire_all gk reqs cs'
      | Some (Inr (v, cs')) \<Rightarrow> acquire_all gk reqs cs')"

text \<open>The state an outcome carries, returned or thrown.\<close>

definition outcome_state :: "('a, 's) outcome \<Rightarrow> 's" where
  "outcome_state r = (case r of Inl (e, s) \<Rightarrow> s | Inr (v, s) \<Rightarrow> s)"

text \<open>What the remove callback does to a tile.\<close>

definition reset_tile :: "tile \<Rightarrow> tile" where
  "reset_tile ti = ti\<lparr>texture := None, extentVA := False, projection := None, state := Some READY\<rparr>"

text \<open>The central body an outcome carries, returned or thrown.\<close>

definition final :: "cb_outcome \<Rightarrow> central_body" where
  "final r = (case r of Inl (e, cb) \<Rightarrow> cb | Inr cb \<Rightarrow> cb)"

text \<open>No tile occurs twice in the three stage queues taken together: a tile is in at most
  one of them, and at most once.\<close>

definition single_queue :: "central_body \<Rightarrow> bool" where
  "single_queue cb = distinct (imageQueue cb @ reprojectQueue cb @ textureQueue cb)"

text \<open>The guard of \<^verbatim>\<open>_processTile\<close>: the tile is in one of the stage queues.\<close>

definition queued :: "central_body \<Rightarrow> tile_ref \<Rightarrow> bool" where
  "queued cb t =
     (contains (imageQueue cb) t \<or> contains (reprojectQueue cb) t \<or> contains (textureQueue cb) t)"

text \<open>The tiles a drain took out of a queue, given the queue before and after it.\<close>

definition dequeued :: "tile_ref list \<Rightarrow> tile_ref list \<Rightarrow> tile_ref set" where
  "dequeued before after = set before - set after"

text \<open>What the cache can do to a tile other than the one being uploaded: stamp it, or evict
  it, which takes a tile that holds a texture and leaves it in state \<open>READY\<close> with texture and
  projection unset. The image payload and the tree links are never touched.\<close>

definition tile_effect :: "tile \<Rightarrow> tile \<Rightarrow> bool" where
  "tile_effect ti ti' =
     (tile_image ti' = tile_image ti \<and> children ti' = children ti
      \<and> (state ti' = state ti \<and> texture ti' = texture ti \<and> projection ti' = projection ti
          \<or> texture ti \<noteq> None \<and> state ti' = Some READY \<and> texture ti' = None
             \<and> projection ti' = None))"

text \<open>The texture cache, when there is one, has the remove callback of
  \<^verbatim>\<open>_createTextureCache\<close> installed.\<close>

definition cache_uses :: "texture_pool option \<Rightarrow> central_body \<Rightarrow> bool" where
  "cache_uses pool cb =
     (case textureCache cb of
        None \<Rightarrow> True
      | Some (pol, object) \<Rightarrow> removeFunc pol = Some (remove_func pool))"

text \<open>What happens to a central body over time: frames (each with the camera and clock of
  that frame) and, between frames, the callbacks of image requests. A frame that throws
  leaves the state it reached, and the next frame starts from it.\<close>

datatype event = Frame env | ImageLoaded tile_ref | ImageFailed env tile_ref | ImageInvalid tile_ref

fun run :: "event list \<Rightarrow> central_body \<Rightarrow> central_body option" where
  "run [] cb = Some cb"
| "run (Frame e # evs) cb = (case update e cb of None \<Rightarrow> None | Some r \<Rightarrow> run evs (final r))"
| "run (ImageLoaded t # evs) cb = run evs (onload t cb)"
| "run (ImageFailed e t # evs) cb = run evs (onerror e t cb)"
| "run (ImageInvalid t # evs) cb = run evs (oninvalid t cb)"

subsection \<open>Concrete inputs\<close>

definition blank_tile :: tile where
  "blank_tile =
     \<lparr>tile_x = 0, tile_y = 0, zoom = 0, parent = None, children = [], state = None,
      tile_image = None, texture = None, projection = None, extentVA = False,
      failCount = None, lastHit = None\<rparr>"

text \<open>A clock that starts at 100 s and advances one second per reading; nothing is culled.\<close>

definition env0 :: env where
  "env0 = \<lparr>clock = (\<lambda>n. 100 + int n), cull = (\<lambda>t. False), refine = (\<lambda>t. False),
           toWgs84 = (\<lambda>pr ti. tile_image ti),
           getKey = (\<lambda>ti. replicate (Suc (zoom ti)) (CHR ''q''))\<rparr>"

text \<open>A freshly constructed central body whose root tile's first image request has failed.\<close>

definition cb_failed :: central_body where
  "cb_failed = onerror env0 0 (CentralBody (\<lambda>t. blank_tile\<lparr>state := Some IMAGE_LOADING\<rparr>) 0)"

text \<open>A small tree: root 0, its descendants 1 and 2 at zoom 1 and 2, and two leaves 3 and 4
  at zoom 3 under tile 2. Every tile holds a 256x256 image.\<close>

definition img256 :: image_data where
  "img256 = \<lparr>img_width = 256, img_height = 256\<rparr>"

definition tex256 :: texture2d where
  "tex256 = \<lparr>tex_width = 256, tex_height = 256\<rparr>"

definition pool256 :: "texture_pool option" where
  "pool256 = Some \<lparr>pool_width = 256, pool_height = 256\<rparr>"

definition mk_tile :: "nat \<Rightarrow> nat \<Rightarrow> tile_ref option \<Rightarrow> tile_ref list \<Rightarrow> tile" where
  "mk_tile xx z p ch = blank_tile\<lparr>tile_x := xx, zoom := z, parent := p, children := ch,
                                  tile_image := Some img256\<rparr>"

definition world :: store where
  "world = (\<lambda>t. blank_tile)
     (0 := mk_tile 0 0 None [1], 1 := mk_tile 0 1 (Some 0) [2], 2 := mk_tile 0 2 (Some 1) [3, 4],
      3 := mk_tile 0 3 (Some 2) [], 4 := mk_tile 1 3 (Some 2) [])"

definition tile_name :: "tile \<Rightarrow> string" where
  "tile_name ti = replicate (Suc (zoom ti)) (CHR ''q'') @ replicate (tile_x ti) (CHR ''x'')"

text \<open>A cache of capacity 2 that is full: it holds the root and leaf 3, both uploaded at
  time 21.\<close>

definition policy2 :: policy where
  "policy2 = TileTextureCachePolicy 2 (fetch_func pool256) (Some (remove_func pool256))"

definition with_texture :: "julian \<Rightarrow> tile \<Rightarrow> tile" where
  "with_texture time ti = ti\<lparr>texture := Some tex256, state := Some TEXTURE_LOADED,
                              tile_image := None, lastHit := Some time\<rparr>"

definition cached_world :: store where
  "cached_world = world(0 := with_texture 21 (world 0), 3 := with_texture 21 (world 3))"

definition cached_object :: cache_object where
  "cached_object = [(''q'', \<lparr>prop_key = 0, prop_value = tex256\<rparr>),
                    (''qqqq'', \<lparr>prop_key = 3, prop_value = tex256\<rparr>)]"

definition policy2_full :: policy where
  "policy2_full = policy2\<lparr>count := 2\<rparr>"

text \<open>A cache of capacity 1 that holds the root tile only.\<close>

definition policy1_full :: policy where
  "policy1_full =
     (TileTextureCachePolicy 1 (fetch_func pool256) (Some (remove_func pool256)))\<lparr>count := 1\<rparr>"

definition root_object :: cache_object where
  "root_object = [(''q'', \<lparr>prop_key = 0, prop_value = tex256\<rparr>)]"

text \<open>A provider, a frame in which nothing is culled and every tile asks for refinement,
  and the same frame with leaf 3 culled.\<close>

definition prov0 :: provider where
  "prov0 = \<lparr>zoomMin = 0, zoomMax = 3, prov_projection = MERCATOR, tileWidth = Some 256,
            tileHeight = Some 256, loadTileImage = (\<lambda>ti. Some img256)\<rparr>"

definition env1 :: env where
  "env1 = \<lparr>clock = (\<lambda>n. 100 + int n), cull = (\<lambda>t. False), refine = (\<lambda>t. True),
           toWgs84 = (\<lambda>pr ti. tile_image ti), getKey = tile_name\<rparr>"

definition env_cull3 :: env where
  "env_cull3 = env1\<lparr>cull := (\<lambda>t. t = 3)\<rparr>"

text \<open>A central body on the small tree with no tile loaded yet, and one caught in the middle
  of streaming: leaves 3 and 4 and tile 1 wait for their fetch, tile 2 for reprojection, the
  root for upload; the fetch stage may take two tiles per frame.\<close>

definition fresh_world :: store where
  "fresh_world = (\<lambda>t. (world t)\<lparr>tile_image := None\<rparr>)"

definition cb_world :: central_body where
  "cb_world = createTextureCache ((CentralBody fresh_world 0)\<lparr>dayTileProvider := Some prov0\<rparr>)"

definition busy_world :: store where
  "busy_world = fresh_world
     (0 := (world 0)\<lparr>state := Some TEXTURE_LOADING, projection := Some WGS84\<rparr>,
      1 := (fresh_world 1)\<lparr>state := Some IMAGE_LOADING\<rparr>,
      2 := (world 2)\<lparr>state := Some REPROJECTING, projection := Some MERCATOR\<rparr>,
      3 := (fresh_world 3)\<lparr>state := Some IMAGE_LOADING\<rparr>,
      4 := (fresh_world 4)\<lparr>state := Some IMAGE_LOADING\<rparr>)"

definition cb_busy :: central_body where
  "cb_busy = cb_world\<lparr>imageQueue := [3, 4, 1], reprojectQueue := [2], textureQueue := [0],
                      imageThrottleLimit := 2, tiles := busy_world\<rparr>"

text \<open>The same, with the request for leaf 3 already in flight (the fetch stage has taken it
  out of the queue and given it the handle of the request and the provider's projection);
  and with leaf 3 waiting for upload in front of the root.\<close>

definition cb_inflight :: central_body where
  "cb_inflight = cb_busy\<lparr>imageQueue := [4, 1],
                          tiles := busy_world(3 := (world 3)\<lparr>state := Some IMAGE_LOADING,
                                                            projection := Some MERCATOR\<rparr>)\<rparr>"

definition cb_upload :: central_body where
  "cb_upload = cb_busy\<lparr>imageQueue := [4, 1], textureQueue := [3, 0],
                        tiles := busy_world(3 := (world 3)\<lparr>state := Some TEXTURE_LOADING,
                                                          projection := Some WGS84\<rparr>)\<rparr>"

section \<open>Properties\<close>

text \<open>The loop equations are unfolded by hand, one round at a time.\<close>

declare throttleImages_loop.simps [simp del] throttleReprojection_loop.simps [simp del]
  throttleTextures_loop.simps [simp del]

subsection \<open>The ancestor walk of \<^verbatim>\<open>hit\<close>\<close>

lemma hit_loop_None [simp]: "hit_loop time None s = Some s"
  by (simp add: hit_loop.simps)

lemma hit_loop_Some:
  "hit_loop time (Some c) s = hit_loop time (parent (s c)) (s(c := (s c)\<lparr>lastHit := Some time\<rparr>))"
  by (subst hit_loop.simps) simp

lemma chain_ok_cong: "(\<And>c. parent (s' c) = parent (s c)) \<Longrightarrow> chain_ok s' cur cs = chain_ok s cur cs"
  by (induction cs arbitrary: cur) auto

lemma touch_Cons: "touch time cs (s(c := (s c)\<lparr>lastHit := Some time\<rparr>)) = touch time (c # cs) s"
  by (auto simp: touch_def fun_eq_iff)

lemma hit_loop_chain:
  "chain_ok s cur cs \<Longrightarrow> hit_loop time cur s = Some (touch time cs s)"
proof (induction cs arbitrary: s cur)
  case Nil
  then show ?case by (simp add: touch_def)
next
  case (Cons c cs)
  let ?s' = "s(c := (s c)\<lparr>lastHit := Some time\<rparr>)"
  from Cons.prems have cur: "cur = Some c" and ch: "chain_ok s (parent (s c)) cs" by simp_all
  have "chain_ok ?s' (parent (s c)) cs"
    using ch by (subst chain_ok_cong[where s = s]) auto
  then have "hit_loop time (parent (s c)) ?s' = Some (touch time cs ?s')"
    by (rule Cons.IH)
  then show ?case using cur by (simp add: touch_Cons hit_loop_Some)
qed

text \<open>Conversely, a walk that returns has followed a finite parent chain.\<close>

lemma hit_loop_returns:
  "hit_loop time cur s = Some s' \<Longrightarrow> \<exists>cs. chain_ok s cur cs \<and> s' = touch time cs s"
proof (induction rule: hit_loop.raw_induct[rotated 1, consumes 1])
  case (1 hl time cur s s')
  show ?case
  proof (cases cur)
    case None
    with 1(2) show ?thesis by (auto simp: touch_def intro!: exI[of _ "[]"])
  next
    case (Some c)
    let ?s' = "s(c := (s c)\<lparr>lastHit := Some time\<rparr>)"
    from 1(2) Some have "hl time (parent (s c)) ?s' = Some s'" by simp
    from 1(1)[OF this] obtain cs where ch: "chain_ok ?s' (parent (s c)) cs" and s': "s' = touch time cs ?s'"
      by blast
    have "chain_ok s (parent (s c)) cs"
      using ch by (subst (asm) chain_ok_cong[where s = s]) auto
    then show ?thesis using Some s' by (intro exI[of _ "c # cs"]) (simp add: touch_Cons)
  qed
qed

lemma hit_returns:
  "hit time ob s = Some (v, s') \<Longrightarrow>
     v = prop_value ob \<and> (\<exists>cs. chain_ok s (Some (prop_key ob)) cs \<and> s' = touch time cs s)"
  by (auto simp: hit_def split: option.splits dest: hit_loop_returns)

lemma touch_fields [simp]:
  "zoom (touch time cs s c) = zoom (s c)"
  "state (touch time cs s c) = state (s c)"
  "texture (touch time cs s c) = texture (s c)"
  "projection (touch time cs s c) = projection (s c)"
  "tile_image (touch time cs s c) = tile_image (s c)"
  "parent (touch time cs s c) = parent (s c)"
  "failCount (touch time cs s c) = failCount (s c)"
  "extentVA (touch time cs s c) = extentVA (s c)"
  "children (touch time cs s c) = children (s c)"
  by (simp_all add: touch_def)

lemma touch_lastHit: "lastHit (touch time cs s c) = (if c \<in> set cs then Some time else lastHit (s c))"
  by (simp add: touch_def)

subsection \<open>Retry policy\<close>

text \<open>What the retry test of \<^verbatim>\<open>_processTile\<close> comes to while \<^verbatim>\<open>_maxTileFailCount\<close> is
  undefined: a failed tile outside the queues is left alone until the cool-down has elapsed,
  and then queued for fetch with both failure counters reset.\<close>

lemma failed_tile_waits_for_cooldown:
  assumes "private_maxTileFailCount cb = None" "\<not> queued cb t"
    "state (tiles cb t) = Some IMAGE_FAILED" "\<not> maxTimePassed e cb"
  shows "imageQueue (processTile e t cb) = imageQueue cb
         \<and> tiles (processTile e t cb) = tiles cb"
  using assms
  by (simp add: processTile_def queued_def Let_def js_lt_def tick_def split: option.splits)

lemma failed_tile_retried_after_cooldown:
  assumes "\<not> queued cb t" "state (tiles cb t) = Some IMAGE_FAILED" "maxTimePassed e cb"
  shows "imageQueue (processTile e t cb) = imageQueue cb @ [t]
         \<and> state (tiles (processTile e t cb) t) = Some IMAGE_LOADING
         \<and> failCount (tiles (processTile e t cb) t) = Some 0
         \<and> tileFailCount (processTile e t cb) = 0"
  using assms
  by (simp add: processTile_def queued_def Let_def enqueue_def upd_tile_def tick_def
      split: option.splits)

text \<open>
  C1. Retry policy: a tile in \<open>IMAGE_FAILED\<close> whose own failure count is below the per-tile
  ceiling is put back into the image queue, in state \<open>IMAGE_LOADING\<close>, as long as the global
  failure counter has not exceeded the global ceiling. The code does not do this. After one
  failed request on a new central body (tile count 1 of 3, global count 1 of 30, one second
  after the failure, nothing queued) \<open>processTile\<close> leaves the image queue empty and the tile in
  \<open>IMAGE_FAILED\<close>: both comparisons of \<^verbatim>\<open>_processTile\<close> read \<^verbatim>\<open>this._maxTileFailCount\<close>, which
  no code assigns, and a comparison with \<^verbatim>\<open>undefined\<close> is false.
\<close>

theorem failed_tile_below_ceilings_not_retried:
  "state (tiles cb_failed 0) = Some IMAGE_FAILED
   \<and> failCount (tiles cb_failed 0) = Some 1 \<and> perTileMaxFailCount cb_failed = 3
   \<and> tileFailCount cb_failed = 1 \<and> maxTileFailCount cb_failed = 30
   \<and> imageQueue cb_failed = [] \<and> reprojectQueue cb_failed = [] \<and> textureQueue cb_failed = []
   \<and> \<not> maxTimePassed env0 cb_failed
   \<and> imageQueue (processTile env0 0 cb_failed) = []
   \<and> state (tiles (processTile env0 0 cb_failed) 0) = Some IMAGE_FAILED"
  by (simp add: cb_failed_def env0_def onerror_def CentralBody_def blank_tile_def upd_tile_def
      tick_def now_def processTile_def contains_def js_lt_def maxTimePassed_def
      getSecondsDifference_def Let_def)

subsection \<open>The texture cache\<close>

lemma outcome_state_simps [simp]:
  "outcome_state (Inl (e, s)) = s" "outcome_state (Inr (v, s)) = s"
  by (simp_all add: outcome_state_def)

lemma chain_ok_head: "chain_ok s (Some key) cs \<Longrightarrow> key \<in> set cs"
  by (cases cs) auto

lemma chain_ok_closed:
  "chain_ok s cur cs \<Longrightarrow> c \<in> set cs \<Longrightarrow> parent (s c) = Some p \<Longrightarrow> p \<in> set cs"
proof (induction cs arbitrary: cur)
  case Nil
  then show ?case by simp
next
  case (Cons a cs)
  show ?case
  proof (cases "c = a")
    case True
    with Cons.prems have "chain_ok s (Some p) cs" by simp
    then show ?thesis by (simp add: chain_ok_head)
  next
    case False
    with Cons show ?thesis by auto
  qed
qed

lemma remove_func_Inr:
  "remove_func pool t s = Inr s' \<Longrightarrow>
     s' = s(t := (s t)\<lparr>texture := None, extentVA := False, projection := None, state := Some READY\<rparr>)"
  by (auto simp: remove_func_def split: option.splits)

lemma remove_func_Inl: "remove_func pool t s = Inl (e, s') \<Longrightarrow> s' = s \<and> e = TypeError"
  by (auto simp: remove_func_def split: option.splits)

lemma lru_scan_no_candidate:
  "\<forall>k \<in> set keys. \<forall>el. map_of object k = Some el \<longrightarrow> \<not> qualifies s lt el \<Longrightarrow>
     lru_scan s object keys lt idx = Inr (lt, idx) \<or> lru_scan s object keys lt idx = Inl TypeError"
  by (induction keys) (auto simp: qualifies_def split: option.splits)



lemma qualifies_touch:
  "lruTime \<le> time \<Longrightarrow> qualifies (touch time cs s) lruTime el \<Longrightarrow> qualifies s lruTime el"
  by (auto simp: qualifies_def touch_lastHit split: option.splits if_splits)

lemma length_update_le: "length (AList.update k v al) \<le> Suc (length al)"
  by (induction al) auto

lemma length_delete_less: "map_of al k = Some v \<Longrightarrow> length (AList.delete k al) < length al"
  by (induction al) (auto simp: le_imp_less_Suc length_delete_le split: if_splits)

text \<open>All the ways \<open>miss\<close> can end for the cache \<^verbatim>\<open>_createTextureCache\<close> builds: the fetch
  callback throws; the scan, the missing victim or the remove callback throws after the
  walk; the entry is inserted below capacity; or a victim is evicted and reset.\<close>

lemma miss_outcomes:
  assumes m: "miss lruTime time name key pol object s = Some r"
      and rf: "removeFunc pol = Some (remove_func pool)"
  shows "(\<exists>e. r = Inl (e, (pol, object, s)))
       \<or> (\<exists>cs e. chain_ok s (Some key) cs \<and> r = Inl (e, (pol, object, touch time cs s)))
       \<or> (\<exists>cs v. chain_ok s (Some key) cs \<and> count pol < limit pol
             \<and> r = Inr (v, (pol\<lparr>count := count pol + 1\<rparr>,
                           AList.update name \<lparr>prop_key = key, prop_value = v\<rparr> object,
                           touch time cs s)))
       \<or> (\<exists>cs v index el lt. chain_ok s (Some key) cs \<and> \<not> count pol < limit pol
             \<and> lru_scan (touch time cs s) object (map fst object) lruTime [] = Inr (lt, index)
             \<and> map_of object index = Some el \<and> texture (s (prop_key el)) \<noteq> None
             \<and> r = Inr (v, (pol,
                           AList.update name \<lparr>prop_key = key, prop_value = v\<rparr> (AList.delete index object),
                           (touch time cs s)(prop_key el := reset_tile (touch time cs s (prop_key el))))))"
proof (cases "fetchFunc pol (s key)")
  case (Inl e)
  with m show ?thesis by (auto simp: miss_def)
next
  case (Inr v)
  let ?p = "\<lparr>prop_key = key, prop_value = v\<rparr>"
  from m Inr obtain v' s1 where h: "hit time ?p s = Some (v', s1)"
    by (auto simp: miss_def Let_def split: option.splits)
  from hit_returns[OF h] obtain cs where ch: "chain_ok s (Some key) cs" and s1: "s1 = touch time cs s"
    by auto
  show ?thesis
  proof (cases "count pol < limit pol")
    case True
    with m Inr h s1 ch show ?thesis by (auto simp: miss_def Let_def)
  next
    case False
    note cap = this
    show ?thesis
    proof (cases "lru_scan s1 object (map fst object) lruTime []")
      case (Inl e)
      with m Inr h s1 ch cap show ?thesis by (auto simp: miss_def Let_def)
    next
      case scan: (Inr res)
      obtain lt index where res: "res = (lt, index)" by (cases res)
      show ?thesis
      proof (cases "map_of object index")
        case None
        with m Inr h s1 ch cap scan res rf show ?thesis by (auto simp: miss_def Let_def)
      next
        case (Some el)
        show ?thesis
        proof (cases "remove_func pool (prop_key el) s1")
          case (Inl x)
          with m Inr h s1 ch cap scan res rf Some show ?thesis
            by (cases x) (auto simp: miss_def Let_def dest!: remove_func_Inl)
        next
          case rm: (Inr s2)
          from remove_func_Inr[OF rm] have "s2 = s1(prop_key el := reset_tile (s1 (prop_key el)))"
            by (simp add: reset_tile_def)
          moreover from rm s1 have "texture (s (prop_key el)) \<noteq> None"
            by (auto simp: remove_func_def split: option.splits)
          ultimately show ?thesis
            using m Inr h s1 ch cap scan res rf Some rm by (auto simp: miss_def Let_def)
        qed
      qed
    qed
  qed
qed

lemma find_outcomes:
  assumes f: "Cache_find t1 t2 gk key (pol, object, s) = Some r"
      and rf: "removeFunc pol = Some (remove_func pool)"
  shows "(\<exists>cs el. chain_ok s (Some (prop_key el)) cs \<and> map_of object (gk (s key)) = Some el
             \<and> r = Inr (prop_value el, (pol, object, touch t1 cs s)))
       \<or> (map_of object (gk (s key)) = None \<and> miss t1 t2 (gk (s key)) key pol object s = Some r)"
  using f by (auto simp: Cache_find_def split: option.splits dest!: hit_returns)


text \<open>One acquire keeps the entry count within the policy's counter and the counter within
  the limit.\<close>

lemma find_step_capacity:
  assumes f: "Cache_find t1 t2 gk key (pol, object, s) = Some r"
      and rf: "removeFunc pol = Some (remove_func pool)"
      and inv: "length object \<le> count pol" "count pol \<le> limit pol"
      and r: "outcome_state r = (pol', object', s')"
  shows "removeFunc pol' = Some (remove_func pool) \<and> limit pol' = limit pol
         \<and> length object' \<le> count pol' \<and> count pol' \<le> limit pol'"
  using find_outcomes[OF f rf]
proof (elim disjE exE conjE)
  fix cs and el :: property
  assume "r = Inr (prop_value el, pol, object, touch t1 cs s)"
  with r rf inv show ?thesis by auto
next
  assume m: "miss t1 t2 (gk (s key)) key pol object s = Some r"
  from miss_outcomes[OF m rf] show ?thesis
  proof (elim disjE exE conjE)
    fix er assume "r = Inl (er, pol, object, s)"
    with r rf inv show ?thesis by auto
  next
    fix cs er assume "r = Inl (er, pol, object, touch t2 cs s)"
    with r rf inv show ?thesis by auto
  next
    fix cs v
    assume "count pol < limit pol"
      "r = Inr (v, pol\<lparr>count := count pol + 1\<rparr>,
                     AList.update (gk (s key)) \<lparr>prop_key = key, prop_value = v\<rparr> object, touch t2 cs s)"
    with r rf inv length_update_le[of "gk (s key)" "\<lparr>prop_key = key, prop_value = v\<rparr>" object]
    show ?thesis by auto
  next
    fix cs v index el lt
    assume el: "map_of object index = Some el"
      and res: "r = Inr (v, pol, AList.update (gk (s key)) \<lparr>prop_key = key, prop_value = v\<rparr>
                               (AList.delete index object),
                        (touch t2 cs s)(prop_key el := reset_tile (touch t2 cs s (prop_key el))))"
    from res r have p: "pol' = pol"
      and o: "object' = AList.update (gk (s key)) \<lparr>prop_key = key, prop_value = v\<rparr> (AList.delete index object)"
      by simp_all
    have "length object' \<le> Suc (length (AList.delete index object))"
      unfolding o by (rule length_update_le)
    also have "\<dots> \<le> length object"
      using length_delete_less[OF el] by simp
    finally show ?thesis using p rf inv by simp
  qed
qed


lemma acquire_all_capacity:
  assumes "acquire_all gk reqs (pol, object, s) = Some (pol', object', s')"
      and "removeFunc pol = Some (remove_func pool)"
      and "length object \<le> count pol" "count pol \<le> limit pol"
  shows "limit pol' = limit pol \<and> length object' \<le> count pol' \<and> count pol' \<le> limit pol'"
  using assms
proof (induction reqs arbitrary: pol object s)
  case Nil
  then show ?case by simp
next
  case (Cons req reqs)
  obtain t1 t2 key where req: "req = (t1, t2, key)" by (cases req)
  from Cons.prems(1) req obtain r where f: "Cache_find t1 t2 gk key (pol, object, s) = Some r"
    and rest: "acquire_all gk reqs (outcome_state r) = Some (pol', object', s')"
    by (auto split: option.splits sum.splits)
  obtain pol1 object1 s1 where r: "outcome_state r = (pol1, object1, s1)" by (cases "outcome_state r")
  note step = find_step_capacity[OF f Cons.prems(2,3,4) r]
  from rest r have "acquire_all gk reqs (pol1, object1, s1) = Some (pol', object', s')" by simp
  from Cons.IH[OF this] step show ?case by simp
qed

text \<open>Evaluation of the cache on the concrete inputs.\<close>

lemmas eval_defs = Cache_find_def miss_def hit_def hit_loop_Some
  fetch_func_def remove_func_def world_def mk_tile_def blank_tile_def tile_name_def policy2_def
  TileTextureCachePolicy_def img256_def tex256_def pool256_def Let_def
  with_texture_def cached_world_def cached_object_def policy2_full_def
  policy1_full_def root_object_def eval_nat_numeral

text \<open>
  C9. A cache hit stamps the current time on the entry's own tile and on every ancestor up to
  the root. If the tile's parent links form the finite chain \<open>cs\<close> (the tile first, the root
  last, closed under the parent link), then \<open>hit\<close> returns, and it returns the store in which
  exactly the tiles of \<open>cs\<close> carry the new time; \<open>miss\<close> runs the same walk before it inserts,
  so whatever way it ends, the tiles of \<open>cs\<close> carry the new time in the state it leaves.
\<close>

theorem hit_touches_all_ancestors:
  assumes ch: "chain_ok s (Some key) cs"
      and rf: "removeFunc pol = Some (remove_func pool)"
      and ff: "fetchFunc pol (s key) = Inr v"
  shows "hit time \<lparr>prop_key = key, prop_value = v\<rparr> s = Some (v, touch time cs s)
         \<and> key \<in> set cs
         \<and> (\<forall>c \<in> set cs. \<forall>p. parent (s c) = Some p \<longrightarrow> p \<in> set cs)
         \<and> (\<forall>c \<in> set cs. lastHit (touch time cs s c) = Some time)
         \<and> (\<exists>r. miss lruTime time name key pol object s = Some r
                \<and> (\<forall>c \<in> set cs. lastHit (snd (snd (outcome_state r)) c) = Some time))"
proof -
  let ?s1 = "touch time cs s"
  have h: "hit time \<lparr>prop_key = key, prop_value = v\<rparr> s = Some (v, ?s1)"
    using hit_loop_chain[OF ch] by (simp add: hit_def)
  have st: "\<forall>c \<in> set cs. lastHit (?s1 c) = Some time"
    by (simp add: touch_lastHit)
  have rm: "\<And>t s2 c. remove_func pool t ?s1 = Inr s2 \<Longrightarrow> lastHit (s2 c) = lastHit (?s1 c)"
    by (auto dest!: remove_func_Inr)
  have "\<exists>r. miss lruTime time name key pol object s = Some r
           \<and> (\<forall>c \<in> set cs. lastHit (snd (snd (outcome_state r)) c) = Some time)"
    using h rf ff st
    by (auto simp: miss_def Let_def rm split: sum.splits option.splits prod.splits dest!: remove_func_Inl)
  with h st ch show ?thesis
    by (auto simp: chain_ok_head dest: chain_ok_closed)
qed

theorem hit_touches_all_ancestors_witness:
  "chain_ok cached_world (Some 4) [4, 2, 1, 0]
   \<and> removeFunc policy2_full = Some (remove_func pool256)
   \<and> fetchFunc policy2_full (cached_world 4) = Inr tex256
   \<and> hit 31 \<lparr>prop_key = 4, prop_value = tex256\<rparr> cached_world
         = Some (tex256, touch 31 [4, 2, 1, 0] cached_world)
   \<and> lastHit (cached_world 2) = None
   \<and> lastHit (touch 31 [4, 2, 1, 0] cached_world 2) = Some 31
   \<and> (\<exists>r. miss 30 31 ''qqqqx'' 4 policy2_full cached_object cached_world = Some r
          \<and> lastHit (snd (snd (outcome_state r)) 0) = Some 31)"
proof -
  have h1: "chain_ok cached_world (Some 4) [4, 2, 1, 0]" by (simp add: eval_defs)
  have h2: "removeFunc policy2_full = Some (remove_func pool256)" by (simp add: eval_defs)
  have h3: "fetchFunc policy2_full (cached_world 4) = Inr tex256" by (simp add: eval_defs)
  have h4: "lastHit (cached_world 2) = None" by (simp add: eval_defs)
  note T = hit_touches_all_ancestors[OF h1 h2 h3, of 31 30 "''qqqqx''" cached_object]
  from T have a: "hit 31 \<lparr>prop_key = 4, prop_value = tex256\<rparr> cached_world
         = Some (tex256, touch 31 [4, 2, 1, 0] cached_world)" by (rule conjunct1)
  from T have b: "\<forall>c \<in> set [4, 2, 1, 0]. lastHit (touch 31 [4, 2, 1, 0] cached_world c) = Some 31"
    by (elim conjE)
  from T obtain r where c: "miss 30 31 ''qqqqx'' 4 policy2_full cached_object cached_world = Some r"
    and d: "\<forall>c \<in> set [4, 2, 1, 0]. lastHit (snd (snd (outcome_state r)) c) = Some 31"
    by (elim conjE exE)
  from b have b': "lastHit (touch 31 [4, 2, 1, 0] cached_world 2) = Some 31" by simp
  from d have d': "lastHit (snd (snd (outcome_state r)) 0) = Some 31" by simp
  from h1 h2 h3 h4 a b' c d' show ?thesis by blast
qed

text \<open>
  C10. A miss at capacity with no eligible victim throws instead of inserting. Let the cache
  be at capacity with a remove callback installed, let the fetch callback succeed and the
  ancestor walk return, and let no resident entry pass the test of the scan (its tile is at
  zoom 2 or less, or its last hit is not earlier than the clock reading of the miss). Then
  the victim name stays empty; as the empty name holds no entry, \<^verbatim>\<open>element.key\<close> is read off
  \<^verbatim>\<open>undefined\<close>, and the call throws a TypeError with the cache object unchanged.
\<close>

theorem miss_without_victim_throws:
  assumes cap: "\<not> count pol < limit pol"
      and rf: "removeFunc pol = Some rf"
      and ff: "fetchFunc pol (s key) = Inr v"
      and ch: "chain_ok s (Some key) cs"
      and mono: "lruTime \<le> time"
      and none: "\<forall>(n, el) \<in> set object. \<not> qualifies s lruTime el"
      and empty: "map_of object [] = None"
  shows "miss lruTime time name key pol object s
           = Some (Inl (TypeError, (pol, object, touch time cs s)))"
proof -
  let ?s1 = "touch time cs s"
  have h: "hit time \<lparr>prop_key = key, prop_value = v\<rparr> s = Some (v, ?s1)"
    using hit_loop_chain[OF ch] by (simp add: hit_def)
  have "\<forall>k \<in> set (map fst object). \<forall>el. map_of object k = Some el \<longrightarrow> \<not> qualifies ?s1 lruTime el"
    using none mono by (auto dest!: map_of_SomeD qualifies_touch)
  from lru_scan_no_candidate[OF this, of "[]"]
  have "lru_scan ?s1 object (map fst object) lruTime [] = Inr (lruTime, [])
        \<or> lru_scan ?s1 object (map fst object) lruTime [] = Inl TypeError" .
  then show ?thesis
    using cap rf ff h empty by (auto simp: miss_def)
qed

theorem miss_without_victim_throws_witness:
  "\<not> count policy1_full < limit policy1_full
   \<and> removeFunc policy1_full = Some (remove_func pool256)
   \<and> fetchFunc policy1_full (cached_world 4) = Inr tex256
   \<and> chain_ok cached_world (Some 4) [4, 2, 1, 0]
   \<and> root_object = [(''q'', \<lparr>prop_key = 0, prop_value = tex256\<rparr>)]
   \<and> \<not> qualifies cached_world 30 \<lparr>prop_key = 0, prop_value = tex256\<rparr>
   \<and> map_of root_object [] = None
   \<and> miss 30 31 ''qqqqx'' 4 policy1_full root_object cached_world
         = Some (Inl (TypeError, (policy1_full, root_object, touch 31 [4, 2, 1, 0] cached_world)))"
proof -
  have h1: "\<not> count policy1_full < limit policy1_full" by (simp add: eval_defs)
  have h2: "removeFunc policy1_full = Some (remove_func pool256)" by (simp add: eval_defs)
  have h3: "fetchFunc policy1_full (cached_world 4) = Inr tex256" by (simp add: eval_defs)
  have h4: "chain_ok cached_world (Some 4) [4, 2, 1, 0]" by (simp add: eval_defs)
  have h5: "(30::int) \<le> 31" by simp
  have h6: "\<forall>(n, el) \<in> set root_object. \<not> qualifies cached_world 30 el"
    by (simp add: eval_defs qualifies_def)
  have h7: "map_of root_object [] = None" by (simp add: eval_defs)
  have h8: "root_object = [(''q'', \<lparr>prop_key = 0, prop_value = tex256\<rparr>)]"
    by (simp add: root_object_def)
  have h9: "\<not> qualifies cached_world 30 \<lparr>prop_key = 0, prop_value = tex256\<rparr>"
    by (simp add: eval_defs qualifies_def)
  from miss_without_victim_throws[OF h1 h2 h3 h4 h5 h6 h7, of "''qqqqx''"] h1 h2 h3 h4 h8 h9 h7
  show ?thesis by blast
qed



text \<open>
  C3. Cache capacity and the postcondition of eviction, for the cache that
  \<^verbatim>\<open>_createTextureCache\<close> builds. (1) From any cache state whose entry count is within the
  policy's counter and the counter within the limit (in particular the new, empty cache),
  any sequence of acquire operations leaves at most \<open>limit\<close> entries resident. (2) Whenever a
  miss at capacity returns, it has deleted an entry, and that entry's tile is in state
  \<open>READY\<close> with its texture and its projection unset.
\<close>

theorem cache_capacity_and_eviction_postcondition:
  assumes rf: "removeFunc pol = Some (remove_func pool)"
  shows "(acquire_all gk reqs (pol, object, s) = Some (pol', object', s')
            \<and> length object \<le> count pol \<and> count pol \<le> limit pol \<longrightarrow>
          length object' \<le> limit pol' \<and> limit pol' = limit pol)
       \<and> (miss lruTime time name key pol object s = Some (Inr (v, (pol1, object1, s1)))
            \<and> \<not> count pol < limit pol \<and> map_of object name = None \<longrightarrow>
          (\<exists>index el. map_of object index = Some el \<and> map_of object1 index = None
             \<and> state (s1 (prop_key el)) = Some READY
             \<and> texture (s1 (prop_key el)) = None
             \<and> projection (s1 (prop_key el)) = None))"
proof (intro conjI impI)
  assume a: "acquire_all gk reqs (pol, object, s) = Some (pol', object', s')
            \<and> length object \<le> count pol \<and> count pol \<le> limit pol"
  then have acq: "acquire_all gk reqs (pol, object, s) = Some (pol', object', s')"
    and l: "length object \<le> count pol" and c: "count pol \<le> limit pol" by simp_all
  from acquire_all_capacity[OF acq rf l c]
  show "length object' \<le> limit pol'" "limit pol' = limit pol" by simp_all
next
  assume a: "miss lruTime time name key pol object s = Some (Inr (v, (pol1, object1, s1)))
            \<and> \<not> count pol < limit pol \<and> map_of object name = None"
  then have m: "miss lruTime time name key pol object s = Some (Inr (v, (pol1, object1, s1)))"
    and cap: "\<not> count pol < limit pol" and nm: "map_of object name = None" by simp_all
  from miss_outcomes[OF m rf] cap
  obtain cs index el where
    el: "map_of object index = Some el"
    and o: "object1 = AList.update name \<lparr>prop_key = key, prop_value = v\<rparr> (AList.delete index object)"
    and s1: "s1 = (touch time cs s)(prop_key el := reset_tile (touch time cs s (prop_key el)))"
    by auto
  from el nm have "index \<noteq> name" by auto
  then have "map_of object1 index = None"
    by (simp add: o update_conv' delete_conv')
  moreover have "state (s1 (prop_key el)) = Some READY" "texture (s1 (prop_key el)) = None"
    "projection (s1 (prop_key el)) = None"
    by (simp_all add: s1 reset_tile_def)
  ultimately show "\<exists>index el. map_of object index = Some el \<and> map_of object1 index = None
             \<and> state (s1 (prop_key el)) = Some READY
             \<and> texture (s1 (prop_key el)) = None
             \<and> projection (s1 (prop_key el)) = None"
    using el by blast
qed

theorem cache_capacity_and_eviction_postcondition_witness:
  "\<exists>pol1 object1 s1 pol' object' s'.
     removeFunc policy2_full = Some (remove_func pool256)
     \<and> acquire_all tile_name [(30, 31, 4), (40, 41, 0)] (policy2_full, cached_object, cached_world)
          = Some (pol', object', s')
     \<and> length cached_object \<le> count policy2_full \<and> count policy2_full \<le> limit policy2_full
     \<and> length object' \<le> 2 \<and> limit pol' = 2
     \<and> miss 30 31 (tile_name (cached_world 4)) 4 policy2_full cached_object cached_world
          = Some (Inr (tex256, (pol1, object1, s1)))
     \<and> \<not> count policy2_full < limit policy2_full
     \<and> map_of cached_object (tile_name (cached_world 4)) = None
     \<and> state (cached_world 3) = Some TEXTURE_LOADED
     \<and> (\<exists>index el. map_of cached_object index = Some el \<and> map_of object1 index = None
             \<and> state (s1 (prop_key el)) = Some READY
             \<and> texture (s1 (prop_key el)) = None
             \<and> projection (s1 (prop_key el)) = None)
     \<and> state (s1 3) = Some READY"
proof -
  have h1: "removeFunc policy2_full = Some (remove_func pool256)"
    by (simp add: policy2_full_def policy2_def TileTextureCachePolicy_def)
  have inv: "length cached_object \<le> count policy2_full" "count policy2_full \<le> limit policy2_full"
    "limit policy2_full = 2"
    by (simp_all add: policy2_full_def policy2_def TileTextureCachePolicy_def cached_object_def)
  have cap: "\<not> count policy2_full < limit policy2_full"
    by (simp add: policy2_full_def policy2_def TileTextureCachePolicy_def)
  have nm: "map_of cached_object (tile_name (cached_world 4)) = None"
    by (simp add: eval_defs)
  have st3: "state (cached_world 3) = Some TEXTURE_LOADED"
    by (simp add: eval_defs)
  have "\<exists>pol1 object1 s1. miss 30 31 (tile_name (cached_world 4)) 4 policy2_full cached_object cached_world
          = Some (Inr (tex256, (pol1, object1, s1))) \<and> state (s1 3) = Some READY"
    by (simp add: eval_defs)
  then obtain pol1 object1 s1 where
    m: "miss 30 31 (tile_name (cached_world 4)) 4 policy2_full cached_object cached_world
          = Some (Inr (tex256, (pol1, object1, s1)))" and r3: "state (s1 3) = Some READY"
    by (elim exE conjE)
  have "\<exists>x. acquire_all tile_name [(30, 31, 4), (40, 41, 0)] (policy2_full, cached_object, cached_world) = Some x"
    by (simp add: eval_defs)
  then obtain pol' object' s' where
    acq: "acquire_all tile_name [(30, 31, 4), (40, 41, 0)] (policy2_full, cached_object, cached_world)
          = Some (pol', object', s')"
    by (metis prod_cases3)
  note T = cache_capacity_and_eviction_postcondition[OF h1, of tile_name "[(30, 31, 4), (40, 41, 0)]"
      cached_object cached_world pol' object' s' 30 31 "tile_name (cached_world 4)" 4 tex256 pol1 object1 s1]
  from T acq inv have c1: "length object' \<le> 2 \<and> limit pol' = 2" by simp
  from T m cap nm
  have c2: "\<exists>index el. map_of cached_object index = Some el \<and> map_of object1 index = None
             \<and> state (s1 (prop_key el)) = Some READY
             \<and> texture (s1 (prop_key el)) = None
             \<and> projection (s1 (prop_key el)) = None" by simp
  show ?thesis
    apply (rule exI[of _ pol1], rule exI[of _ object1], rule exI[of _ s1])
    apply (rule exI[of _ pol'], rule exI[of _ object'], rule exI[of _ s'])
    using h1 acq inv c1 m cap nm st3 c2 r3 by simp
qed

subsection \<open>The stage drains and the frame\<close>

lemma final_simps [simp]: "final (Inl (e, cb)) = cb" "final (Inr cb) = cb"
  by (simp_all add: final_def)

lemma imageStage_tiles:
  "\<exists>f. final (imageStage e t cb) = upd_tile t f cb"
  apply (simp add: imageStage_def split: option.splits)
  apply (auto simp: upd_tile_def intro: exI[of _ "\<lambda>x. x"])
  done

lemma reprojectStage_tiles:
  "\<exists>f. final (reprojectStage e t cb) = upd_tile t f cb"
  by (auto simp: reprojectStage_def upd_tile_def split: option.splits intro: exI[of _ "\<lambda>x. x"])

lemma upd_tile_fields [simp]:
  "imageQueue (upd_tile t f cb) = imageQueue cb"
  "reprojectQueue (upd_tile t f cb) = reprojectQueue cb"
  "textureQueue (upd_tile t f cb) = textureQueue cb"
  "renderQueue (upd_tile t f cb) = renderQueue cb"
  "imageThrottleLimit (upd_tile t f cb) = imageThrottleLimit cb"
  "reprojectThrottleLimit (upd_tile t f cb) = reprojectThrottleLimit cb"
  "textureThrottleLimit (upd_tile t f cb) = textureThrottleLimit cb"
  "textureCache (upd_tile t f cb) = textureCache cb"
  "dayTileProvider (upd_tile t f cb) = dayTileProvider cb"
  "ticks (upd_tile t f cb) = ticks cb"
  "tileFailCount (upd_tile t f cb) = tileFailCount cb"
  "lastFailedTime (upd_tile t f cb) = lastFailedTime cb"
  "rootTile (upd_tile t f cb) = rootTile cb"
  "tiles (upd_tile t f cb) = (tiles cb)(t := f (tiles cb t))"
  by (simp_all add: upd_tile_def)

lemma throttleImages_loop_queue:
  "\<exists>k s'. k \<le> imageThrottleLimit cb - i \<and> k \<le> len - i
      \<and> final (throttleImages_loop e i len cb) = cb\<lparr>imageQueue := drop k (imageQueue cb), tiles := s'\<rparr>"
proof (induction e i len cb rule: throttleImages_loop.induct)
  case (1 e i len cb)
  show ?case
  proof (cases "i < len \<and> i < imageThrottleLimit cb")
    case False
    then show ?thesis
      by (subst throttleImages_loop.simps) (auto intro!: exI[of _ 0] exI[of _ "tiles cb"])
  next
    case True
    show ?thesis
    proof (cases "imageQueue cb")
      case Nil
      with True show ?thesis
        by (subst throttleImages_loop.simps) (auto simp: dequeue_def intro!: exI[of _ 0] exI[of _ "tiles cb"])
    next
      case (Cons t q)
      let ?cb1 = "cb\<lparr>imageQueue := q\<rparr>"
      obtain f where f: "final (imageStage e t ?cb1) = upd_tile t f ?cb1"
        using imageStage_tiles by blast
      show ?thesis
      proof (cases "imageStage e t ?cb1")
        case (Inl x)
        with f True Cons show ?thesis
          apply (subst throttleImages_loop.simps)
          apply (cases x)
          apply (auto simp: dequeue_def upd_tile_def intro!: exI[of _ 1])
          done
      next
        case (Inr cb')
        with f have cb': "cb' = upd_tile t f ?cb1" by simp
        have dq: "(Some t, q) = dequeue (imageQueue cb)" using Cons by (simp add: dequeue_def)
        from "1.IH"[OF True dq refl Inr]
        obtain k s' where k: "k \<le> imageThrottleLimit cb' - (i + 1)" "k \<le> len - (i + 1)"
          and fin: "final (throttleImages_loop e (i + 1) len cb') = cb'\<lparr>imageQueue := drop k (imageQueue cb'), tiles := s'\<rparr>"
          by blast
        from True Cons Inr fin cb' k show ?thesis
          apply (subst throttleImages_loop.simps)
          apply (auto simp: dequeue_def upd_tile_def intro!: exI[of _ "Suc k"])
          done
      qed
    qed
  qed
qed





lemma throttleReprojection_loop_queue:
  "\<exists>k s'. k \<le> reprojectThrottleLimit cb - i \<and> k \<le> len - i
      \<and> final (throttleReprojection_loop e i len cb) = cb\<lparr>reprojectQueue := drop k (reprojectQueue cb), tiles := s'\<rparr>"
proof (induction e i len cb rule: throttleReprojection_loop.induct)
  case (1 e i len cb)
  show ?case
  proof (cases "i < len \<and> i < reprojectThrottleLimit cb")
    case False
    then show ?thesis
      by (subst throttleReprojection_loop.simps) (auto intro!: exI[of _ 0] exI[of _ "tiles cb"])
  next
    case True
    show ?thesis
    proof (cases "reprojectQueue cb")
      case Nil
      with True show ?thesis
        by (subst throttleReprojection_loop.simps) (auto simp: dequeue_def intro!: exI[of _ 0] exI[of _ "tiles cb"])
    next
      case (Cons t q)
      let ?cb1 = "cb\<lparr>reprojectQueue := q\<rparr>"
      obtain f where f: "final (reprojectStage e t ?cb1) = upd_tile t f ?cb1"
        using reprojectStage_tiles by blast
      show ?thesis
      proof (cases "reprojectStage e t ?cb1")
        case (Inl x)
        with f True Cons show ?thesis
          apply (subst throttleReprojection_loop.simps)
          apply (cases x)
          apply (auto simp: dequeue_def upd_tile_def intro!: exI[of _ 1])
          done
      next
        case (Inr cb')
        with f have cb': "cb' = upd_tile t f ?cb1" by simp
        have dq: "(Some t, q) = dequeue (reprojectQueue cb)" using Cons by (simp add: dequeue_def)
        from "1.IH"[OF True dq refl Inr]
        obtain k s' where k: "k \<le> reprojectThrottleLimit cb' - (i + 1)" "k \<le> len - (i + 1)"
          and fin: "final (throttleReprojection_loop e (i + 1) len cb') = cb'\<lparr>reprojectQueue := drop k (reprojectQueue cb'), tiles := s'\<rparr>"
          by blast
        from True Cons Inr fin cb' k show ?thesis
          apply (subst throttleReprojection_loop.simps)
          apply (auto simp: dequeue_def upd_tile_def intro!: exI[of _ "Suc k"])
          done
      qed
    qed
  qed
qed



lemma tile_effect_refl [simp]: "tile_effect ti ti"
  by (simp add: tile_effect_def)







lemma textureStage_fields:
  assumes "textureStage e u cb = Some r"
  shows "imageQueue (final r) = imageQueue cb \<and> reprojectQueue (final r) = reprojectQueue cb
         \<and> textureQueue (final r) = textureQueue cb \<and> renderQueue (final r) = renderQueue cb
         \<and> textureThrottleLimit (final r) = textureThrottleLimit cb
         \<and> dayTileProvider (final r) = dayTileProvider cb \<and> rootTile (final r) = rootTile cb"
  using assms
  by (auto simp: textureStage_def Let_def split: if_splits option.splits prod.splits sum.splits)


lemma throttleTextures_loop_queue:
  assumes "throttleTextures_loop e i len cb = Some r"
  shows "\<exists>k. k \<le> textureThrottleLimit cb - i \<and> k \<le> len - i
      \<and> textureQueue (final r) = drop k (textureQueue cb)
      \<and> imageQueue (final r) = imageQueue cb \<and> reprojectQueue (final r) = reprojectQueue cb
      \<and> renderQueue (final r) = renderQueue cb
      \<and> dayTileProvider (final r) = dayTileProvider cb \<and> rootTile (final r) = rootTile cb"
  using assms
proof (induction e i len cb rule: throttleTextures_loop.induct)
  case (1 e i len cb)
  show ?case
  proof (cases "i < len \<and> i < textureThrottleLimit cb")
    case False
    with "1.prems" show ?thesis
      by (subst (asm) throttleTextures_loop.simps) (auto intro!: exI[of _ 0])
  next
    case True
    show ?thesis
    proof (cases "textureQueue cb")
      case Nil
      with True "1.prems" show ?thesis
        by (subst (asm) throttleTextures_loop.simps) (auto simp: dequeue_def intro!: exI[of _ 0])
    next
      case (Cons u q)
      let ?cb1 = "cb\<lparr>textureQueue := q\<rparr>"
      have dq: "(Some u, q) = dequeue (textureQueue cb)" using Cons by (simp add: dequeue_def)
      from "1.prems" True dq[symmetric] obtain r1 where st: "textureStage e u ?cb1 = Some r1"
        by (subst (asm) throttleTextures_loop.simps) (auto split: option.splits)
      note fl = textureStage_fields[OF st]
      show ?thesis
      proof (cases r1)
        case (Inl x)
        with "1.prems" True dq[symmetric] st have "r = Inl x"
          by (subst (asm) throttleTextures_loop.simps) simp
        with fl Inl True Cons show ?thesis
          by (intro exI[of _ 1]) auto
      next
        case (Inr cb')
        with "1.prems" True dq[symmetric] st
        have rest: "throttleTextures_loop e (i + 1) len cb' = Some r"
          by (subst (asm) throttleTextures_loop.simps) simp
        from st Inr have st': "textureStage e u ?cb1 = Some (Inr cb')" by simp
        from "1.IH"[OF True dq refl st' refl rest]
        obtain k where k: "k \<le> textureThrottleLimit cb' - (i + 1)" "k \<le> len - (i + 1)"
          and fin: "textureQueue (final r) = drop k (textureQueue cb')"
            "imageQueue (final r) = imageQueue cb'" "reprojectQueue (final r) = reprojectQueue cb'"
            "renderQueue (final r) = renderQueue cb'"
            "dayTileProvider (final r) = dayTileProvider cb'" "rootTile (final r) = rootTile cb'"
          by blast
        from k fin fl Inr True Cons show ?thesis
          by (intro exI[of _ "Suc k"]) auto
      qed
    qed
  qed
qed



lemma processTile_queued: "queued cb t \<Longrightarrow> processTile e t cb = cb"
  by (simp add: processTile_def queued_def)

lemma tick_fields [simp]:
  "imageQueue (tick cb) = imageQueue cb"
  "reprojectQueue (tick cb) = reprojectQueue cb"
  "textureQueue (tick cb) = textureQueue cb"
  "renderQueue (tick cb) = renderQueue cb"
  "tiles (tick cb) = tiles cb"
  "textureCache (tick cb) = textureCache cb"
  "dayTileProvider (tick cb) = dayTileProvider cb"
  "rootTile (tick cb) = rootTile cb"
  "imageThrottleLimit (tick cb) = imageThrottleLimit cb"
  "reprojectThrottleLimit (tick cb) = reprojectThrottleLimit cb"
  "textureThrottleLimit (tick cb) = textureThrottleLimit cb"
  by (simp_all add: tick_def)

text \<open>the queues after processTile: unchanged, or the tile appended to exactly one of them\<close>

lemma processTile_queues:
  "(imageQueue (processTile e t cb) = imageQueue cb
      \<and> reprojectQueue (processTile e t cb) = reprojectQueue cb
      \<and> textureQueue (processTile e t cb) = textureQueue cb)
   \<or> (\<not> queued cb t \<and> imageQueue (processTile e t cb) = imageQueue cb @ [t]
      \<and> reprojectQueue (processTile e t cb) = reprojectQueue cb
      \<and> textureQueue (processTile e t cb) = textureQueue cb)
   \<or> (\<not> queued cb t \<and> imageQueue (processTile e t cb) = imageQueue cb
      \<and> reprojectQueue (processTile e t cb) = reprojectQueue cb @ [t]
      \<and> textureQueue (processTile e t cb) = textureQueue cb)
   \<or> (\<not> queued cb t \<and> imageQueue (processTile e t cb) = imageQueue cb
      \<and> reprojectQueue (processTile e t cb) = reprojectQueue cb
      \<and> textureQueue (processTile e t cb) = textureQueue cb @ [t])"
  by (simp add: processTile_def queued_def Let_def enqueue_def split: option.splits)

lemma processTile_single_queue: "single_queue cb \<Longrightarrow> single_queue (processTile e t cb)"
  using processTile_queues[of e t cb]
  by (auto simp: single_queue_def queued_def contains_def)

lemma processTile_other_fields [simp]:
  "renderQueue (processTile e t cb) = renderQueue cb"
  "dayTileProvider (processTile e t cb) = dayTileProvider cb"
  "rootTile (processTile e t cb) = rootTile cb"
  "textureCache (processTile e t cb) = textureCache cb"
  by (simp_all add: processTile_def Let_def split: option.splits)

lemma enqueueTile_fields [simp]:
  "imageQueue (enqueueTile t cb) = imageQueue cb"
  "reprojectQueue (enqueueTile t cb) = reprojectQueue cb"
  "textureQueue (enqueueTile t cb) = textureQueue cb"
  by (simp_all add: enqueueTile_def)

lemma enqueueTile_single_queue [simp]: "single_queue (enqueueTile t cb) = single_queue cb"
  by (simp add: single_queue_def)

lemma refine_children_single_queue:
  "single_queue cb \<Longrightarrow> single_queue (snd (refine_children e t cs stack cb))"
  by (induction cs arbitrary: stack cb) (auto simp: processTile_single_queue)

lemma traverse_single_queue:
  "traverse e stack cb = Some r \<Longrightarrow> single_queue cb \<Longrightarrow> single_queue (final r)"
proof (induction rule: traverse.raw_induct[rotated 1, consumes 1])
  case (1 trav e stack cb r)
  show ?case
  proof (cases stack)
    case Nil
    with 1(2,3) show ?thesis by auto
  next
    case (Cons t rest)
    with 1(2) have body:
      "(if cull e t then trav e rest cb
        else if dayTileProvider cb = None \<or> loaded (tiles cb t) then
          (case dayTileProvider cb of
             None \<Rightarrow> Some (Inl (TypeError, cb))
           | Some p \<Rightarrow>
               if zoom (tiles cb t) + 1 > zoomMax p \<or> \<not> refine e t
               then trav e rest (enqueueTile t cb)
               else trav e (fst (refine_children e t (children (tiles cb t)) rest cb))
                           (snd (refine_children e t (children (tiles cb t)) rest cb)))
        else trav e rest (processTile e t cb)) = Some r" by simp
    show ?thesis
    proof (cases "cull e t")
      case True
      with body have "trav e rest cb = Some r" by simp
      from 1(1)[OF this 1(3)] show ?thesis .
    next
      case nc: False
      show ?thesis
      proof (cases "dayTileProvider cb = None \<or> loaded (tiles cb t)")
        case False
        with body nc have "trav e rest (processTile e t cb) = Some r" by simp
        from 1(1)[OF this processTile_single_queue[OF 1(3)]] show ?thesis .
      next
        case True
        show ?thesis
        proof (cases "dayTileProvider cb")
          case None
          with body nc True 1(3) show ?thesis by auto
        next
          case (Some p)
          show ?thesis
          proof (cases "zoom (tiles cb t) + 1 > zoomMax p \<or> \<not> refine e t")
            case True
            with body nc \<open>dayTileProvider cb = None \<or> loaded (tiles cb t)\<close> Some
            have "trav e rest (enqueueTile t cb) = Some r" by simp
            from 1(1)[OF this] 1(3) show ?thesis by simp
          next
            case False
            with body nc \<open>dayTileProvider cb = None \<or> loaded (tiles cb t)\<close> Some
            have "trav e (fst (refine_children e t (children (tiles cb t)) rest cb))
                           (snd (refine_children e t (children (tiles cb t)) rest cb)) = Some r"
              by simp
            from 1(1)[OF this refine_children_single_queue[OF 1(3)]] show ?thesis .
          qed
        qed
      qed
    qed
  qed
qed

lemma drop_queue_single:
  "distinct (a @ b @ c) \<Longrightarrow> distinct (drop k a @ b @ c) \<and> distinct (a @ drop k b @ c)
     \<and> distinct (a @ b @ drop k c)"
  by (auto dest: in_set_dropD)

lemma throttleImages_single_queue:
  assumes "single_queue cb"
  shows "single_queue (final (throttleImages e cb))"
proof -
  from throttleImages_loop_queue[of cb 0 "length (imageQueue cb)" e]
  obtain k s' where "final (throttleImages e cb) = cb\<lparr>imageQueue := drop k (imageQueue cb), tiles := s'\<rparr>"
    unfolding throttleImages_def by blast
  with assms show ?thesis by (auto simp: single_queue_def dest: in_set_dropD)
qed

lemma throttleReprojection_single_queue:
  assumes "single_queue cb"
  shows "single_queue (final (throttleReprojection e cb))"
proof -
  from throttleReprojection_loop_queue[of cb 0 "length (reprojectQueue cb)" e]
  obtain k s' where "final (throttleReprojection e cb) = cb\<lparr>reprojectQueue := drop k (reprojectQueue cb), tiles := s'\<rparr>"
    unfolding throttleReprojection_def by blast
  with assms show ?thesis by (auto simp: single_queue_def dest: in_set_dropD)
qed

lemma throttleTextures_single_queue:
  assumes "throttleTextures e cb = Some r" "single_queue cb"
  shows "single_queue (final r)"
proof -
  from assms(1) have "throttleTextures_loop e 0 (length (textureQueue cb)) cb = Some r"
    by (simp add: throttleTextures_def)
  from throttleTextures_loop_queue[OF this]
  obtain k where "textureQueue (final r) = drop k (textureQueue cb)"
    "imageQueue (final r) = imageQueue cb" "reprojectQueue (final r) = reprojectQueue cb"
    by blast
  with assms(2) show ?thesis by (auto simp: single_queue_def dest: in_set_dropD)
qed

lemma createTextureCache_queues [simp]:
  "imageQueue (createTextureCache cb) = imageQueue cb"
  "reprojectQueue (createTextureCache cb) = reprojectQueue cb"
  "textureQueue (createTextureCache cb) = textureQueue cb"
  by (simp_all add: createTextureCache_def Let_def)

lemma update_single_queue:
  assumes "update e cb = Some r" "single_queue cb"
  shows "single_queue (final r)"
proof -
  let ?cb0 = "if textureCache cb = None then createTextureCache cb else cb"
  have s0: "single_queue ?cb0" using assms(2) by (simp add: single_queue_def)
  show ?thesis
  proof (cases "throttleImages e ?cb0")
    case (Inl x)
    with assms(1) have "r = Inl x" by (simp add: update_def Let_def)
    with throttleImages_single_queue[OF s0, of e] Inl show ?thesis by simp
  next
    case i: (Inr cb1)
    with throttleImages_single_queue[OF s0, of e] have s1: "single_queue cb1" by simp
    show ?thesis
    proof (cases "throttleReprojection e cb1")
      case (Inl x)
      with assms(1) i have "r = Inl x" by (simp add: update_def Let_def)
      with throttleReprojection_single_queue[OF s1, of e] Inl show ?thesis by simp
    next
      case rp: (Inr cb2)
      with throttleReprojection_single_queue[OF s1, of e] have s2: "single_queue cb2" by simp
      from assms(1) i rp obtain r3 where t: "throttleTextures e cb2 = Some r3"
        by (auto simp: update_def Let_def split: option.splits)
      note s3 = throttleTextures_single_queue[OF t s2]
      show ?thesis
      proof (cases r3)
        case (Inl x)
        with assms(1) i rp t have "r = Inl x" by (simp add: update_def Let_def)
        with s3 Inl show ?thesis by simp
      next
        case (Inr cb3)
        with assms(1) i rp t have "traverse e [rootTile cb3] cb3 = Some r"
          by (simp add: update_def Let_def)
        from traverse_single_queue[OF this] s3 Inr show ?thesis by simp
      qed
    qed
  qed
qed

lemma callbacks_single_queue [simp]:
  "single_queue (onload t cb) = single_queue cb"
  "single_queue (onerror e t cb) = single_queue cb"
  "single_queue (oninvalid t cb) = single_queue cb"
  by (simp_all add: single_queue_def onload_def onerror_def oninvalid_def)

lemma run_single_queue:
  "run evs cb = Some cb' \<Longrightarrow> single_queue cb \<Longrightarrow> single_queue cb'"
proof (induction evs cb rule: run.induct)
  case (2 e evs cb)
  then show ?case by (auto split: option.splits dest: update_single_queue)
qed simp_all

lemma throttleImages_queue:
  "\<exists>k s'. k \<le> imageThrottleLimit cb
     \<and> final (throttleImages e cb) = cb\<lparr>imageQueue := drop k (imageQueue cb), tiles := s'\<rparr>"
proof -
  from throttleImages_loop_queue[of cb 0 "length (imageQueue cb)" e]
  obtain k s' where "k \<le> imageThrottleLimit cb - 0"
    "final (throttleImages_loop e 0 (length (imageQueue cb)) cb)
       = cb\<lparr>imageQueue := drop k (imageQueue cb), tiles := s'\<rparr>"
    by blast
  then show ?thesis unfolding throttleImages_def by (intro exI[of _ k] exI[of _ s']) simp
qed

lemma throttleReprojection_queue:
  "\<exists>k s'. k \<le> reprojectThrottleLimit cb
     \<and> final (throttleReprojection e cb) = cb\<lparr>reprojectQueue := drop k (reprojectQueue cb), tiles := s'\<rparr>"
proof -
  from throttleReprojection_loop_queue[of cb 0 "length (reprojectQueue cb)" e]
  obtain k s' where "k \<le> reprojectThrottleLimit cb - 0"
    "final (throttleReprojection_loop e 0 (length (reprojectQueue cb)) cb)
       = cb\<lparr>reprojectQueue := drop k (reprojectQueue cb), tiles := s'\<rparr>"
    by blast
  then show ?thesis unfolding throttleReprojection_def by (intro exI[of _ k] exI[of _ s']) simp
qed

lemma throttleTextures_queue:
  assumes "throttleTextures e cb = Some r"
  shows "\<exists>k. k \<le> textureThrottleLimit cb \<and> textureQueue (final r) = drop k (textureQueue cb)
      \<and> imageQueue (final r) = imageQueue cb \<and> reprojectQueue (final r) = reprojectQueue cb"
proof -
  from assms have "throttleTextures_loop e 0 (length (textureQueue cb)) cb = Some r"
    by (simp add: throttleTextures_def)
  from throttleTextures_loop_queue[OF this]
  obtain k where "k \<le> textureThrottleLimit cb - 0" "textureQueue (final r) = drop k (textureQueue cb)"
    "imageQueue (final r) = imageQueue cb" "reprojectQueue (final r) = reprojectQueue cb"
    by blast
  then show ?thesis by (intro exI[of _ k]) simp
qed

text \<open>Evaluation of frames on the concrete inputs.\<close>

lemmas cb_eval_defs = eval_defs prov0_def env1_def env_cull3_def fresh_world_def cb_world_def
  busy_world_def cb_busy_def cb_inflight_def cb_upload_def createTextureCache_def CentralBody_def
  update_def throttleImages_def throttleReprojection_def throttleTextures_def
  throttleImages_loop.simps throttleReprojection_loop.simps throttleTextures_loop.simps
  imageStage_def reprojectStage_def textureStage_def dequeue_def enqueue_def contains_def
  processTile_def enqueueTile_def loaded_def traverse.simps upd_tile_def tick_def now_def
  maxTimePassed_def js_lt_def getSecondsDifference_def onload_def onerror_def oninvalid_def
  createBaseTile_def single_queue_def queued_def dequeued_def final_def cache_uses_def

text \<open>
  C7. Throttle bound. Each drain of a frame takes at most its throttle limit of tiles out of
  its queue, whatever the queue's length: the queue it leaves is the queue it found without
  its first \<open>k\<close> tiles, for some \<open>k\<close> not above the limit. This holds also when the drain
  throws (then for the state it leaves); the upload drain is covered whenever it returns or
  throws, that is whenever the ancestor walks inside it come to an end.
\<close>

theorem drains_respect_throttle_limits:
  "(\<exists>k. k \<le> imageThrottleLimit cb
        \<and> imageQueue (final (throttleImages e cb)) = drop k (imageQueue cb))
   \<and> (\<exists>k. k \<le> reprojectThrottleLimit cb
        \<and> reprojectQueue (final (throttleReprojection e cb)) = drop k (reprojectQueue cb))
   \<and> (throttleTextures e cb = Some r \<longrightarrow>
        (\<exists>k. k \<le> textureThrottleLimit cb \<and> textureQueue (final r) = drop k (textureQueue cb)))"
proof (intro conjI impI)
  from throttleImages_queue[of cb e]
  obtain k s' where "k \<le> imageThrottleLimit cb"
    "final (throttleImages e cb) = cb\<lparr>imageQueue := drop k (imageQueue cb), tiles := s'\<rparr>" by blast
  then show "\<exists>k. k \<le> imageThrottleLimit cb
        \<and> imageQueue (final (throttleImages e cb)) = drop k (imageQueue cb)"
    by (intro exI[of _ k]) simp
next
  from throttleReprojection_queue[of cb e]
  obtain k s' where "k \<le> reprojectThrottleLimit cb"
    "final (throttleReprojection e cb) = cb\<lparr>reprojectQueue := drop k (reprojectQueue cb), tiles := s'\<rparr>"
    by blast
  then show "\<exists>k. k \<le> reprojectThrottleLimit cb
        \<and> reprojectQueue (final (throttleReprojection e cb)) = drop k (reprojectQueue cb)"
    by (intro exI[of _ k]) simp
next
  assume "throttleTextures e cb = Some r"
  from throttleTextures_queue[OF this]
  show "\<exists>k. k \<le> textureThrottleLimit cb \<and> textureQueue (final r) = drop k (textureQueue cb)"
    by blast
qed

lemma dequeued_drop_disjoint:
  "set a \<inter> set b = {} \<Longrightarrow> dequeued a (drop k a) \<inter> dequeued b (drop j b) = {}"
  by (auto simp: dequeued_def)

theorem drains_respect_throttle_limits_witness:
  "imageQueue cb_busy = [3, 4, 1] \<and> imageThrottleLimit cb_busy = 2
   \<and> imageQueue (final (throttleImages env1 cb_busy)) = [1]
   \<and> reprojectQueue (final (throttleReprojection env1 cb_busy)) = []
   \<and> (\<exists>r. throttleTextures env1 cb_busy = Some r
          \<and> (\<exists>k. k \<le> textureThrottleLimit cb_busy
                 \<and> textureQueue (final r) = drop k (textureQueue cb_busy)))"
proof -
  have a: "imageQueue cb_busy = [3, 4, 1]" "imageThrottleLimit cb_busy = 2"
    by (simp_all add: cb_busy_def)
  have b: "imageQueue (final (throttleImages env1 cb_busy)) = [1]"
    by (simp add: cb_eval_defs)
  have c: "reprojectQueue (final (throttleReprojection env1 cb_busy)) = []"
    by (simp add: cb_eval_defs)
  have "\<exists>r. throttleTextures env1 cb_busy = Some r"
    by (simp add: cb_eval_defs)
  then obtain r where r: "throttleTextures env1 cb_busy = Some r" by (elim exE)
  from drains_respect_throttle_limits[of cb_busy env1 r] r
  have d: "\<exists>k. k \<le> textureThrottleLimit cb_busy
            \<and> textureQueue (final r) = drop k (textureQueue cb_busy)"
    by blast
  from a b c r d show ?thesis by blast
qed

text \<open>
  C8. Stage order. \<open>update\<close> runs the fetch drain, then the reprojection drain, then the
  upload drain, then the tree walk. No drain puts a tile into a queue: the reprojection
  queue is the same after the fetch drain, the upload queue the same after the first two.
  Hence, when no tile is queued twice at the start of the frame, the sets of tiles taken out
  by the three drains are pairwise disjoint: a tile is taken by at most one stage per frame.
\<close>

theorem one_stage_per_frame:
  assumes sq: "single_queue cb"
      and i: "throttleImages e (if textureCache cb = None then createTextureCache cb else cb) = Inr cb1"
      and rp: "throttleReprojection e cb1 = Inr cb2"
      and tx: "throttleTextures e cb2 = Some r3"
  shows "update e cb = (case r3 of Inl x \<Rightarrow> Some (Inl x) | Inr cb3 \<Rightarrow> traverse e [rootTile cb3] cb3)
       \<and> reprojectQueue cb1 = reprojectQueue cb \<and> textureQueue cb2 = textureQueue cb
       \<and> dequeued (imageQueue cb) (imageQueue cb1) \<inter> dequeued (reprojectQueue cb1) (reprojectQueue cb2) = {}
       \<and> dequeued (reprojectQueue cb1) (reprojectQueue cb2)
            \<inter> dequeued (textureQueue cb2) (textureQueue (final r3)) = {}
       \<and> dequeued (imageQueue cb) (imageQueue cb1)
            \<inter> dequeued (textureQueue cb2) (textureQueue (final r3)) = {}"
proof -
  let ?cb0 = "if textureCache cb = None then createTextureCache cb else cb"
  have q0: "imageQueue ?cb0 = imageQueue cb" "reprojectQueue ?cb0 = reprojectQueue cb"
    "textureQueue ?cb0 = textureQueue cb" by simp_all
  from throttleImages_queue[of ?cb0 e]
  obtain k1 s1 where "final (throttleImages e ?cb0) = ?cb0\<lparr>imageQueue := drop k1 (imageQueue ?cb0), tiles := s1\<rparr>"
    by blast
  with i have cb1: "cb1 = ?cb0\<lparr>imageQueue := drop k1 (imageQueue ?cb0), tiles := s1\<rparr>"
    by simp
  from throttleReprojection_queue[of cb1 e]
  obtain k2 s2 where "final (throttleReprojection e cb1) = cb1\<lparr>reprojectQueue := drop k2 (reprojectQueue cb1), tiles := s2\<rparr>"
    by blast
  with rp have cb2: "cb2 = cb1\<lparr>reprojectQueue := drop k2 (reprojectQueue cb1), tiles := s2\<rparr>"
    by simp
  from throttleTextures_queue[OF tx]
  obtain k3 where r3: "textureQueue (final r3) = drop k3 (textureQueue cb2)" by blast
  have a: "imageQueue cb1 = drop k1 (imageQueue cb)" "reprojectQueue cb1 = reprojectQueue cb"
    "textureQueue cb1 = textureQueue cb"
    using q0 by (simp_all add: cb1)
  have b: "reprojectQueue cb2 = drop k2 (reprojectQueue cb)" "textureQueue cb2 = textureQueue cb"
    using a by (simp_all add: cb2)
  from sq have dis: "set (imageQueue cb) \<inter> set (reprojectQueue cb) = {}"
    "set (reprojectQueue cb) \<inter> set (textureQueue cb) = {}"
    "set (imageQueue cb) \<inter> set (textureQueue cb) = {}"
    by (auto simp: single_queue_def)
  have u: "update e cb = (case r3 of Inl x \<Rightarrow> Some (Inl x) | Inr cb3 \<Rightarrow> traverse e [rootTile cb3] cb3)"
    using i rp tx by (simp add: update_def Let_def split: sum.splits)
  show ?thesis
    using u a b r3 dis by (simp add: dequeued_drop_disjoint)
qed

theorem one_stage_per_frame_witness:
  "\<exists>cb1 cb2 r3.
     single_queue cb_busy
     \<and> throttleImages env1 (if textureCache cb_busy = None then createTextureCache cb_busy else cb_busy)
           = Inr cb1
     \<and> throttleReprojection env1 cb1 = Inr cb2
     \<and> throttleTextures env1 cb2 = Some r3
     \<and> 3 \<in> dequeued (imageQueue cb_busy) (imageQueue cb1)
     \<and> 4 \<in> dequeued (imageQueue cb_busy) (imageQueue cb1)
     \<and> 2 \<in> dequeued (reprojectQueue cb1) (reprojectQueue cb2)
     \<and> 0 \<in> dequeued (textureQueue cb2) (textureQueue (final r3))
     \<and> reprojectQueue cb1 = reprojectQueue cb_busy \<and> textureQueue cb2 = textureQueue cb_busy
     \<and> dequeued (imageQueue cb_busy) (imageQueue cb1)
           \<inter> dequeued (reprojectQueue cb1) (reprojectQueue cb2) = {}
     \<and> update env1 cb_busy
           = (case r3 of Inl x \<Rightarrow> Some (Inl x) | Inr cb3 \<Rightarrow> traverse env1 [rootTile cb3] cb3)"
proof -
  have sq: "single_queue cb_busy" by (simp add: cb_eval_defs)
  have "\<exists>cb1. throttleImages env1 (if textureCache cb_busy = None then createTextureCache cb_busy else cb_busy)
           = Inr cb1 \<and> 3 \<in> dequeued (imageQueue cb_busy) (imageQueue cb1)
     \<and> 4 \<in> dequeued (imageQueue cb_busy) (imageQueue cb1)
         \<and> (\<exists>cb2. throttleReprojection env1 cb1 = Inr cb2
               \<and> 2 \<in> dequeued (reprojectQueue cb1) (reprojectQueue cb2)
               \<and> (\<exists>r3. throttleTextures env1 cb2 = Some r3
                     \<and> 0 \<in> dequeued (textureQueue cb2) (textureQueue (final r3))))"
    by (simp add: cb_eval_defs)
  then obtain cb1 cb2 r3 where
    i: "throttleImages env1 (if textureCache cb_busy = None then createTextureCache cb_busy else cb_busy)
           = Inr cb1"
    and rp: "throttleReprojection env1 cb1 = Inr cb2"
    and tx: "throttleTextures env1 cb2 = Some r3"
    and d: "3 \<in> dequeued (imageQueue cb_busy) (imageQueue cb1)"
      "4 \<in> dequeued (imageQueue cb_busy) (imageQueue cb1)"
      "2 \<in> dequeued (reprojectQueue cb1) (reprojectQueue cb2)"
      "0 \<in> dequeued (textureQueue cb2) (textureQueue (final r3))"
    by (elim exE conjE)
  note T = one_stage_per_frame[OF sq i rp tx]
  from T have u: "update env1 cb_busy
           = (case r3 of Inl x \<Rightarrow> Some (Inl x) | Inr cb3 \<Rightarrow> traverse env1 [rootTile cb3] cb3)"
    by (rule conjunct1)
  from T have q1: "reprojectQueue cb1 = reprojectQueue cb_busy" by (elim conjE)
  from T have q2: "textureQueue cb2 = textureQueue cb_busy" by (elim conjE)
  from T have q3: "dequeued (imageQueue cb_busy) (imageQueue cb1)
           \<inter> dequeued (reprojectQueue cb1) (reprojectQueue cb2) = {}"
    by (elim conjE)
  show ?thesis
    apply (rule exI[of _ cb1], rule exI[of _ cb2], rule exI[of _ r3])
    using sq i rp tx d q1 q2 q3 u by (intro conjI)
qed

text \<open>
  C4. Single-queue invariant. A new central body has no tile in two stage queues or twice in
  one; every frame (returning or throwing) and every image callback keeps it so, hence it
  holds at every point between frames; \<open>processTile\<close> keeps it as well, and on a tile that is
  in any stage queue it changes nothing at all.
\<close>

theorem single_queue_invariant:
  "single_queue (CentralBody s root)
   \<and> (single_queue cb \<and> run evs cb = Some cb' \<longrightarrow> single_queue cb')
   \<and> (single_queue cb \<longrightarrow> single_queue (processTile e t cb))
   \<and> (queued cb t \<longrightarrow> processTile e t cb = cb)"
  by (auto simp: processTile_queued processTile_single_queue dest: run_single_queue)
     (simp add: single_queue_def CentralBody_def)

theorem single_queue_invariant_witness:
  "single_queue (CentralBody fresh_world 0) \<and> single_queue cb_busy
   \<and> (\<exists>cb'. run [Frame env1, ImageLoaded 4, Frame env1] cb_busy = Some cb' \<and> single_queue cb')
   \<and> single_queue (processTile env1 3 cb_busy)
   \<and> queued cb_busy 3 \<and> processTile env1 3 cb_busy = cb_busy"
proof -
  have sq: "single_queue cb_busy" by (simp add: cb_eval_defs)
  have qd: "queued cb_busy 3" by (simp add: cb_busy_def queued_def contains_def)
  have "\<exists>cb'. run [Frame env1, ImageLoaded 4, Frame env1] cb_busy = Some cb'"
    by (simp add: cb_eval_defs)
  then obtain cb' where r: "run [Frame env1, ImageLoaded 4, Frame env1] cb_busy = Some cb'"
    by (elim exE)
  note T = single_queue_invariant[of fresh_world 0 cb_busy "[Frame env1, ImageLoaded 4, Frame env1]"
      cb' env1 3]
  from T have a: "single_queue (CentralBody fresh_world 0)" by (rule conjunct1)
  from T sq r have b: "single_queue cb'" by blast
  from T sq have c: "single_queue (processTile env1 3 cb_busy)" by blast
  from T qd have d: "processTile env1 3 cb_busy = cb_busy" by blast
  from a sq r b c qd d show ?thesis by blast
qed










lemma processTile_limits [simp]:
  "imageThrottleLimit (processTile e t cb) = imageThrottleLimit cb"
  "reprojectThrottleLimit (processTile e t cb) = reprojectThrottleLimit cb"
  "textureThrottleLimit (processTile e t cb) = textureThrottleLimit cb"
  by (simp_all add: processTile_def Let_def split: option.splits)





end
